theory Spec2Isabelle
  imports Main "HOL-Library.Word"
begin

unbundle bit_operations_syntax

section \<open>Data model\<close>

text \<open>
  The development embeds the geometry core of OpenFBX (\<^verbatim>\<open>src/src/ofbxImp.h\<close>,
  \<^verbatim>\<open>src/src/ofbxImp.cpp\<close>).  C++ vectors are lists, \<^verbatim>\<open>int\<close> entries of index
  arrays are \<open>int\<close>, the unsigned 32-bit header fields are \<open>32 word\<close>, bytes are
  \<open>8 word\<close>.  Every \<^verbatim>\<open>assert\<close> and every access the C++ standard leaves undefined
  (an index past a vector, a null pointer, an uninitialised read) is a branch of the model
  that ends in an \<open>error\<close>; \<^verbatim>\<open>return Error("...")\<close> is the constructor \<open>Error\<close>.
\<close>

type_synonym u8 = "8 word"
type_synonym u32 = "32 word"
type_synonym u64 = "64 word"

datatype error =
    Error string
  | AssertionFailed string
  | UndefinedBehaviour string

text \<open>
  \<^verbatim>\<open>struct Property\<close>: the type tag and the byte window \<^verbatim>\<open>value\<close> (a \<^verbatim>\<open>DataView\<close>
  from \<^verbatim>\<open>begin\<close> to \<^verbatim>\<open>end\<close>).  The sources only ever follow \<^verbatim>\<open>first_property\<close>,
  never \<^verbatim>\<open>next\<close>.
\<close>

record Property =
  prop_type :: char
  prop_value :: "u8 list"

text \<open>
  \<^verbatim>\<open>struct Element\<close>: the child / sibling chain is the list of children.
\<close>

datatype Element =
  Element (elem_id: string) (first_property: "Property option") (children: "Element list")

text \<open>
  The collaborators that are declared in \<^verbatim>\<open>ofbxImp.h\<close> and defined elsewhere are
  parameters of the model: the inflate primitive \<^verbatim>\<open>decompress(in, in_size, out, out_size)\<close>
  (it receives the bytes from \<^verbatim>\<open>in\<close> to the end of the property, the destination's
  present contents, and both sizes), the conversion of a \<^verbatim>\<open>float\<close> to a \<^verbatim>\<open>double\<close>
  on bit patterns, and \<^verbatim>\<open>getTriCountFromPoly(indices, &idx)\<close> (it returns the triangle
  count and the new \<^verbatim>\<open>idx\<close>).
\<close>

type_synonym decompress_fn = "u8 list \<Rightarrow> nat \<Rightarrow> u8 list \<Rightarrow> nat \<Rightarrow> error + (bool \<times> u8 list)"

record externals =
  decompress :: decompress_fn
  float_to_double :: "u32 \<Rightarrow> u64"
  getTriCountFromPoly :: "int list \<Rightarrow> int \<Rightarrow> error + (int \<times> int)"

text \<open>
  Modelled from the spec: \<^verbatim>\<open>findChild\<close> is declared in \<^verbatim>\<open>ofbxImp.h\<close> and its body is
  not among the sources.  The spec's Element Tree Accessor: ``find first child by name''.
\<close>

definition findChild :: "Element \<Rightarrow> string \<Rightarrow> Element option" where
  "findChild element name = find (\<lambda>c. elem_id c = name) (children element)"

text \<open>
  Modelled from the spec: \<^verbatim>\<open>DataView::operator==(const char*)\<close> is not among the
  sources; the comparison of a property's bytes with a string literal is byte-wise equality.
\<close>

definition bytes_of_string :: "string \<Rightarrow> u8 list" where
  "bytes_of_string s = map (\<lambda>c. of_nat (of_char c)) s"

definition DataView_eq :: "u8 list \<Rightarrow> string \<Rightarrow> bool" where
  "DataView_eq v s = (v = bytes_of_string s)"

section \<open>Typed array decoder\<close>

text \<open>\<^verbatim>\<open>*(const u32*)(p + off)\<close> on a little-endian host.\<close>

definition read_u32 :: "u8 list \<Rightarrow> nat \<Rightarrow> u32" where
  "read_u32 bs off =
     word_of_nat (unat (bs ! off) + 256 * unat (bs ! (off + 1))
                  + 65536 * unat (bs ! (off + 2)) + 16777216 * unat (bs ! (off + 3)))"

definition bytes_of_u32 :: "u32 \<Rightarrow> u8 list" where
  "bytes_of_u32 w = [ucast w, ucast (drop_bit 8 w), ucast (drop_bit 16 w), ucast (drop_bit 24 w)]"

definition bytes_of_u64 :: "u64 \<Rightarrow> u8 list" where
  "bytes_of_u64 w =
     [ucast w, ucast (drop_bit 8 w), ucast (drop_bit 16 w), ucast (drop_bit 24 w),
      ucast (drop_bit 32 w), ucast (drop_bit 40 w), ucast (drop_bit 48 w), ucast (drop_bit 56 w)]"

text \<open>A \<^verbatim>\<open>std::vector<T>\<close> seen through its bytes: consecutive records of \<open>n\<close> bytes.\<close>

function chunks :: "nat \<Rightarrow> 'a list \<Rightarrow> 'a list list" where
  "chunks n bs = (if n = 0 \<or> length bs < n then [] else take n bs # chunks n (drop n bs))"
  by pat_completeness auto
termination
  by (relation "measure (\<lambda>(n, bs). length bs)") auto

definition ints_of_bytes :: "u8 list \<Rightarrow> int list" where
  "ints_of_bytes bs = map (\<lambda>c. sint (read_u32 c 0)) (chunks 4 bs)"

definition bytes_of_ints :: "int list \<Rightarrow> u8 list" where
  "bytes_of_ints xs = concat (map (\<lambda>x. bytes_of_u32 (word_of_int x)) xs)"

text \<open>\<^verbatim>\<open>std::vector::resize\<close>: keeps a prefix, value-initialises what it adds.\<close>

definition resize :: "nat \<Rightarrow> 'a \<Rightarrow> 'a list \<Rightarrow> 'a list" where
  "resize n x xs = take n xs @ replicate (n - length xs) x"

text \<open>The \<^verbatim>\<open>switch (property.type)\<close> of \<^verbatim>\<open>parseBinaryArrayRaw\<close> (lines 336--343).\<close>

definition raw_elem_size :: "char \<Rightarrow> nat option" where
  "raw_elem_size t =
     (if t = CHR ''l'' then Some 8
      else if t = CHR ''d'' then Some 8
      else if t = CHR ''f'' then Some 4
      else if t = CHR ''i'' then Some 4
      else None)"

text \<open>
  \<^verbatim>\<open>parseBinaryArrayRaw(property, out, max_size)\<close>, lines 330--366.  The destination
  \<open>out\<close> is \<open>None\<close> for a null pointer and otherwise the bytes the pointer may be written
  through (their number is the real capacity; \<open>max_size\<close> is what the caller declares).
  The result is the returned \<^verbatim>\<open>bool\<close> with the destination's new contents.
  \<^verbatim>\<open>(int)len\<close> and \<^verbatim>\<open>int(elem_size * count)\<close> are the signed readings of the
  32-bit values; \<^verbatim>\<open>elem_size * count\<close> is a product of \<^verbatim>\<open>u32\<close>.
\<close>

definition parseBinaryArrayRaw ::
  "decompress_fn \<Rightarrow> Property \<Rightarrow> u8 list option \<Rightarrow> int \<Rightarrow> error + (bool \<times> u8 list)" where
  "parseBinaryArrayRaw inflate property out max_size =
     (case out of
        None \<Rightarrow> Inl (AssertionFailed ''out'')
      | Some dst \<Rightarrow>
          (case raw_elem_size (prop_type property) of
             None \<Rightarrow> Inr (False, dst)
           | Some elem_size \<Rightarrow>
               if length (prop_value property) < 12 then Inr (False, dst)
               else
                 let count = read_u32 (prop_value property) 0;
                     enc = read_u32 (prop_value property) 4;
                     len = read_u32 (prop_value property) 8;
                     data = drop 12 (prop_value property)
                 in if enc = 0 then
                      (if max_size < sint len then Inr (False, dst)
                       else if length (prop_value property) < 12 + unat len then Inr (False, dst)
                       else if length dst < unat len
                         then Inl (UndefinedBehaviour ''memcpy writes past out'')
                       else Inr (True, take (unat len) data @ drop (unat len) dst))
                    else if enc = 1 then
                      (if max_size < sint (word_of_nat elem_size * count)
                       then Inr (False, dst)
                       else inflate data (unat len) dst (unat (word_of_nat elem_size * count)))
                    else Inr (False, dst)))"

text \<open>The \<^verbatim>\<open>switch\<close> of \<^verbatim>\<open>parseBinaryArray\<close> (lines 374--380): no case for \<^verbatim>\<open>'l'\<close>.\<close>

definition array_elem_size :: "char \<Rightarrow> nat option" where
  "array_elem_size t =
     (if t = CHR ''d'' then Some 8
      else if t = CHR ''f'' then Some 4
      else if t = CHR ''i'' then Some 4
      else None)"

text \<open>
  \<^verbatim>\<open>parseBinaryArray(property, out)\<close>, lines 368--385, for a vector whose element has
  \<open>sizeofT\<close> bytes; the vector is given and returned as its bytes.  \<^verbatim>\<open>getArrayCount\<close>
  reads the first four bytes of the window before any bound is checked.  \<^verbatim>\<open>&(*out)[0]\<close>
  of a vector resized to no element is the null pointer of a vector that owns no storage,
  which \<^verbatim>\<open>assert(out)\<close> of the raw decoder rejects.
\<close>

definition parseBinaryArray ::
  "decompress_fn \<Rightarrow> nat \<Rightarrow> Property \<Rightarrow> u8 list \<Rightarrow> error + (bool \<times> u8 list)" where
  "parseBinaryArray inflate sizeofT property out =
     (if length (prop_value property) < 4
        then Inl (UndefinedBehaviour ''getArrayCount reads past the property'')
      else
        let count = read_u32 (prop_value property) 0
        in case array_elem_size (prop_type property) of
             None \<Rightarrow> Inr (False, out)
           | Some elem_size \<Rightarrow>
               let elem_count = sizeofT div elem_size
               in if elem_count = 0 then Inl (UndefinedBehaviour ''division by zero'')
                  else
                    let n = unat count div elem_count;
                        out' = resize (n * sizeofT) 0 out
                    in parseBinaryArrayRaw inflate property
                         (if n = 0 then None else Some out')
                         (sint (word_of_nat (sizeofT * n) :: u32)))"

text \<open>
  \<^verbatim>\<open>parseDoubleVecData(property, out_vec)\<close>, lines 388--409.  The loop writes
  \<^verbatim>\<open>tmp.size()\<close> doubles through \<^verbatim>\<open>&(*out_vec)[0].x\<close> into a vector of
  \<^verbatim>\<open>tmp.size() / elem_count\<close> records.
\<close>

definition parseDoubleVecData ::
  "externals \<Rightarrow> nat \<Rightarrow> Property \<Rightarrow> u8 list \<Rightarrow> error + (bool \<times> u8 list)" where
  "parseDoubleVecData ext sizeofT property out_vec =
     (if prop_type property = CHR ''d'' then parseBinaryArray (decompress ext) sizeofT property out_vec
      else if prop_type property \<noteq> CHR ''f'' then Inl (AssertionFailed ''property.type == f'')
      else
        case parseBinaryArray (decompress ext) 4 property [] of
          Inl e \<Rightarrow> Inl e
        | Inr (ok, tmp) \<Rightarrow>
            if \<not> ok then Inr (False, out_vec)
            else
              let tmp_size = length tmp div 4;
                  elem_count = sizeofT div 8
              in if elem_count = 0 then Inl (UndefinedBehaviour ''division by zero'')
                 else if (tmp_size div elem_count) * elem_count < tmp_size
                   then Inl (UndefinedBehaviour ''out[i] writes past out_vec'')
                 else Inr (True, concat (map (\<lambda>c. bytes_of_u64 (float_to_double ext (read_u32 c 0)))
                                             (chunks 4 tmp))))"

section \<open>Attribute layers\<close>

datatype VertexDataMapping = BY_POLYGON_VERTEX | BY_POLYGON | BY_VERTEX

text \<open>Lines 428--447 of \<^verbatim>\<open>parseVertexData\<close>: \<open>None\<close> is \<^verbatim>\<open>return false\<close>.\<close>

definition parseMappingInformation ::
  "Element \<Rightarrow> VertexDataMapping option \<Rightarrow> VertexDataMapping option option" where
  "parseMappingInformation element mapping =
     (case findChild element ''MappingInformationType'' of
        None \<Rightarrow> Some mapping
      | Some mapping_element \<Rightarrow>
          (case first_property mapping_element of
             None \<Rightarrow> Some mapping
           | Some p \<Rightarrow>
               if DataView_eq (prop_value p) ''ByPolygonVertex'' then Some (Some BY_POLYGON_VERTEX)
               else if DataView_eq (prop_value p) ''ByPolygon'' then Some (Some BY_POLYGON)
               else if DataView_eq (prop_value p) ''ByVertice'' \<or> DataView_eq (prop_value p) ''ByVertex''
                 then Some (Some BY_VERTEX)
               else None))"

text \<open>Lines 448--462 of \<^verbatim>\<open>parseVertexData\<close>: the index array, when the layer has one.\<close>

definition parseReferenceInformation ::
  "externals \<Rightarrow> Element \<Rightarrow> string \<Rightarrow> int list \<Rightarrow> error + (bool \<times> int list)" where
  "parseReferenceInformation ext element index_name out_indices =
     (case findChild element ''ReferenceInformationType'' of
        None \<Rightarrow> Inr (True, out_indices)
      | Some reference_element \<Rightarrow>
          (case first_property reference_element of
             None \<Rightarrow> Inr (True, out_indices)
           | Some p \<Rightarrow>
               if DataView_eq (prop_value p) ''IndexToDirect'' then
                 (case findChild element index_name of
                    None \<Rightarrow> Inr (True, out_indices)
                  | Some indices_element \<Rightarrow>
                      (case first_property indices_element of
                         None \<Rightarrow> Inr (True, out_indices)
                       | Some ip \<Rightarrow>
                           (case parseBinaryArray (decompress ext) 4 ip (bytes_of_ints out_indices) of
                              Inl e \<Rightarrow> Inl e
                            | Inr (ok, bs) \<Rightarrow> Inr (ok, ints_of_bytes bs))))
               else if \<not> DataView_eq (prop_value p) ''Direct'' then Inr (False, out_indices)
               else Inr (True, out_indices)))"

text \<open>
  \<^verbatim>\<open>parseVertexData(element, name, index_name, out, out_indices, mapping)\<close>, lines
  412--464.  \<open>mapping\<close> is \<open>None\<close> while the caller's variable is uninitialised.
\<close>

definition parseVertexData ::
  "externals \<Rightarrow> nat \<Rightarrow> Element \<Rightarrow> string \<Rightarrow> string \<Rightarrow> u8 list \<Rightarrow> int list
     \<Rightarrow> VertexDataMapping option
     \<Rightarrow> error + (bool \<times> u8 list \<times> int list \<times> VertexDataMapping option)" where
  "parseVertexData ext sizeofT element name index_name out out_indices mapping =
     (case findChild element name of
        None \<Rightarrow> Inr (False, out, out_indices, mapping)
      | Some data_element \<Rightarrow>
          (case first_property data_element of
             None \<Rightarrow> Inr (False, out, out_indices, mapping)
           | Some dp \<Rightarrow>
               (case parseMappingInformation element mapping of
                  None \<Rightarrow> Inr (False, out, out_indices, mapping)
                | Some mapping' \<Rightarrow>
                    (case parseReferenceInformation ext element index_name out_indices of
                       Inl e \<Rightarrow> Inl e
                     | Inr (ok, out_indices') \<Rightarrow>
                         if \<not> ok then Inr (False, out, out_indices', mapping')
                         else
                           (case parseDoubleVecData ext sizeofT dp out of
                              Inl e \<Rightarrow> Inl e
                            | Inr (ok', out') \<Rightarrow> Inr (ok', out', out_indices', mapping'))))))"

text \<open>The loop of lines 27--30: \<^verbatim>\<open>(*indices)[i] = i\<close> for \<open>i\<close> below \<open>count\<close>.\<close>

function fill_identity :: "nat \<Rightarrow> nat \<Rightarrow> int list \<Rightarrow> int list" where
  "fill_identity i count indices =
     (if i < count then fill_identity (i + 1) count (indices[i := int i]) else indices)"
  by pat_completeness auto
termination
  by (relation "measure (\<lambda>(i, count, indices). count - i)") auto

text \<open>
  \<^verbatim>\<open>generateIndices(indices, data, mapping, vertiex_indices)\<close>, lines 6--39; the result
  is the new value of \<^verbatim>\<open>*indices\<close>.  \<^verbatim>\<open>memcpy\<close> over the resized vector copies all
  of \<^verbatim>\<open>vertiex_indices\<close>.
\<close>

definition generateIndices ::
  "int list \<Rightarrow> 'a list \<Rightarrow> VertexDataMapping \<Rightarrow> int list \<Rightarrow> error + int list" where
  "generateIndices indices data mapping vertiex_indices =
     (if data = [] then Inl (AssertionFailed ''!data.empty()'')
      else if vertiex_indices = [] then Inl (AssertionFailed ''!vertiex_indices.empty()'')
      else if indices \<noteq> [] then
        (if length indices = length vertiex_indices then Inr indices
         else Inl (AssertionFailed ''indices->size() == vertiex_indices.size()''))
      else
        let count = length vertiex_indices;
            indices' = resize count 0 indices
        in case mapping of
             BY_POLYGON_VERTEX \<Rightarrow> Inr (fill_identity 0 count indices')
           | BY_VERTEX \<Rightarrow> Inr (take count vertiex_indices @ drop count indices')
           | BY_POLYGON \<Rightarrow> Inl (AssertionFailed ''false''))"

section \<open>Polygon triangulator\<close>

text \<open>
  \<^verbatim>\<open>GeometryImpl::triangulate(old_indices, indices, to_old)\<close>, lines 285--320.  The
  state of the loop is the three vectors and the counter \<^verbatim>\<open>in_polygon_idx\<close>.  The counter
  never exceeds \<open>i\<close> (lemma \<open>triangulate_body_counter_le\<close>), so \<^verbatim>\<open>i - in_polygon_idx\<close> is a
  position of the stream.  \<open>- idx - 1\<close> stays within \<^verbatim>\<open>int\<close> for every negative
  \<^verbatim>\<open>int\<close>.
\<close>

record tri_state =
  tri_old_indices :: "int list"
  tri_indices :: "int list"
  tri_to_old :: "int list"
  tri_in_polygon_idx :: nat

definition getIdx :: "int list \<Rightarrow> nat \<Rightarrow> int" where
  "getIdx old i = (let idx = old ! i in if idx < 0 then - idx - 1 else idx)"

definition triangulate_body :: "nat \<Rightarrow> tri_state \<Rightarrow> tri_state" where
  "triangulate_body i s =
     (let old = tri_old_indices s;
          p = tri_in_polygon_idx s;
          idx = getIdx old i;
          s1 = (if p \<le> 2
                then s\<lparr>tri_indices := tri_indices s @ [idx],
                       tri_to_old := tri_to_old s @ [int i]\<rparr>
                else s\<lparr>tri_indices := tri_indices s @ [old ! (i - p), old ! (i - 1), idx],
                       tri_to_old := tri_to_old s @ [int i - int p, int i - 1, int i]\<rparr>);
          s2 = s1\<lparr>tri_in_polygon_idx := p + 1\<rparr>
      in if old ! i < 0
         then s2\<lparr>tri_old_indices := old[i := idx], tri_in_polygon_idx := 0\<rparr>
         else s2)"

function triangulate_loop :: "nat \<Rightarrow> tri_state \<Rightarrow> tri_state" where
  "triangulate_loop i s =
     (if i < length (tri_old_indices s) then triangulate_loop (i + 1) (triangulate_body i s) else s)"
  by pat_completeness auto
termination
  by (relation "measure (\<lambda>(i, s). length (tri_old_indices s) - i)")
     (auto simp: triangulate_body_def Let_def)

text \<open>The result: the rewritten stream, \<^verbatim>\<open>*indices\<close> and \<^verbatim>\<open>*to_old\<close>.\<close>

definition triangulate :: "int list \<Rightarrow> int list \<Rightarrow> int list \<Rightarrow> int list \<times> int list \<times> int list" where
  "triangulate old ind to =
     (let s = triangulate_loop 0
                \<lparr>tri_old_indices = old, tri_indices = ind, tri_to_old = to, tri_in_polygon_idx = 0\<rparr>
      in (tri_old_indices s, tri_indices s, tri_to_old s))"

subsection \<open>The triangulation the spec describes\<close>

text \<open>
  Written from the spec's words, to be compared with \<open>triangulate\<close>: a polygon is the
  list of its decoded corners; in the stream its last corner \<open>c\<close> is stored as \<open>- c - 1\<close>;
  its triangles are \<open>(c0, c1, c2)\<close> and, for every later corner \<open>k\<close>, (first corner,
  previous corner, corner \<open>k\<close>); every emitted corner is paired with its stream position.
\<close>

definition encode_polygon :: "int list \<Rightarrow> int list" where
  "encode_polygon cs = butlast cs @ [- last cs - 1]"

definition fan_triangles :: "int list \<Rightarrow> int list" where
  "fan_triangles cs =
     (if length cs < 3 then cs
      else [cs ! 0, cs ! 1, cs ! 2] @ concat (map (\<lambda>k. [cs ! 0, cs ! (k - 1), cs ! k]) [3..<length cs]))"

definition fan_positions :: "nat \<Rightarrow> nat \<Rightarrow> int list" where
  "fan_positions off n =
     (if n < 3 then map (\<lambda>k. int off + int k) [0..<n]
      else [int off, int off + 1, int off + 2]
           @ concat (map (\<lambda>k. [int off, int off + int k - 1, int off + int k]) [3..<n]))"

fun stream_positions :: "nat \<Rightarrow> int list list \<Rightarrow> int list" where
  "stream_positions off [] = []"
| "stream_positions off (p # ps) = fan_positions off (length p) @ stream_positions (off + length p) ps"

text \<open>
  The same emission corner by corner, as the loop produces it: \<open>front\<close> are the corners
  of the polygon already consumed.
\<close>

fun fan_emit :: "int list \<Rightarrow> int list \<Rightarrow> int list" where
  "fan_emit front [] = []"
| "fan_emit front (c # t) =
     (if length front \<le> 2 then [c] else [hd front, last front, c]) @ fan_emit (front @ [c]) t"

fun pos_emit :: "nat \<Rightarrow> nat \<Rightarrow> nat \<Rightarrow> int list" where
  "pos_emit off k 0 = []"
| "pos_emit off k (Suc n) =
     (if k \<le> 2 then [int off + int k] else [int off, int off + int k - 1, int off + int k])
     @ pos_emit off (Suc k) n"

fun concat_pos :: "nat \<Rightarrow> int list list \<Rightarrow> int list" where
  "concat_pos off [] = []"
| "concat_pos off (p # ps) = pos_emit off 0 (length p) @ concat_pos (off + length p) ps"


section \<open>Geometry record and vertex expansion\<close>

text \<open>
  \<^verbatim>\<open>struct GeometryImpl\<close>, lines 227--321, with the fields the sources use.  A
  \<^verbatim>\<open>Vec2\<close>, \<^verbatim>\<open>Vec3\<close> or \<^verbatim>\<open>Vec4\<close> is kept as the 16, 24 or 32 bytes of its doubles.
\<close>

type_synonym Vec2 = "u8 list"
type_synonym Vec3 = "u8 list"
type_synonym Vec4 = "u8 list"

record GeometryImpl =
  vertices :: "Vec3 list"
  normals :: "Vec3 list"
  uvs :: "Vec2 list"
  colors :: "Vec4 list"
  tangents :: "Vec3 list"
  materials :: "int list"
  vertex_indices :: "int list"
  normal_indices :: "int list"
  uv_indices :: "int list"
  color_indices :: "int list"
  tangent_indices :: "int list"
  triangles :: "int list"

definition empty_geometry :: GeometryImpl where
  "empty_geometry =
     \<lparr>vertices = [], normals = [], uvs = [], colors = [], tangents = [], materials = [],
      vertex_indices = [], normal_indices = [], uv_indices = [], color_indices = [],
      tangent_indices = [], triangles = []\<rparr>"

text \<open>\<^verbatim>\<open>class VertexData\<close>, lines 42--85, and its \<^verbatim>\<open>enum EXCLUDE\<close>.\<close>

record VertexData =
  pos :: int
  nrm :: int
  tan :: int
  clr :: int
  uv :: int

definition EXCLUDE_VERTEX :: int where "EXCLUDE_VERTEX = 1"
definition EXCLUDE_NORMAL :: int where "EXCLUDE_NORMAL = 2"
definition EXCLUDE_TANGENT :: int where "EXCLUDE_TANGENT = 4"
definition EXCLUDE_COLOR :: int where "EXCLUDE_COLOR = 8"
definition EXCLUDE_UV :: int where "EXCLUDE_UV = 16"

text \<open>
  One field of the constructor (lines 61--74):
  \<^verbatim>\<open>xs.empty() || (mask & EXCLUDE_X) ? -1 : xs[index]\<close>.
\<close>

definition signature_field :: "int list \<Rightarrow> nat \<Rightarrow> int \<Rightarrow> int \<Rightarrow> error + int" where
  "signature_field xs index msk exclude =
     (if xs = [] \<or> msk AND exclude \<noteq> 0 then Inr (- 1)
      else if index < length xs then Inr (xs ! index)
      else Inl (UndefinedBehaviour ''index past an index array''))"

definition VertexData_of :: "GeometryImpl \<Rightarrow> nat \<Rightarrow> int \<Rightarrow> error + VertexData" where
  "VertexData_of geom index msk =
     (case signature_field (vertex_indices geom) index msk EXCLUDE_VERTEX of
        Inl e \<Rightarrow> Inl e
      | Inr p \<Rightarrow>
     (case signature_field (normal_indices geom) index msk EXCLUDE_NORMAL of
        Inl e \<Rightarrow> Inl e
      | Inr n \<Rightarrow>
     (case signature_field (tangent_indices geom) index msk EXCLUDE_TANGENT of
        Inl e \<Rightarrow> Inl e
      | Inr t \<Rightarrow>
     (case signature_field (color_indices geom) index msk EXCLUDE_COLOR of
        Inl e \<Rightarrow> Inl e
      | Inr c \<Rightarrow>
     (case signature_field (uv_indices geom) index msk EXCLUDE_UV of
        Inl e \<Rightarrow> Inl e
      | Inr u \<Rightarrow> Inr \<lparr>pos = p, nrm = n, tan = t, clr = c, uv = u\<rparr>)))))"

text \<open>\<^verbatim>\<open>bool operator!=(const VertexData& p)\<close>, lines 78--84.\<close>

definition VertexData_differs :: "VertexData \<Rightarrow> VertexData \<Rightarrow> bool" where
  "VertexData_differs a b =
     (pos a \<noteq> pos b \<or> nrm a \<noteq> nrm b \<or> tan a \<noteq> tan b \<or> clr a \<noteq> clr b \<or> uv a \<noteq> uv b)"

text \<open>
  \<^verbatim>\<open>expand(data, indices, geom, mask)\<close>, lines 88--115.  Every call passes as
  \<^verbatim>\<open>indices\<close> one of the index arrays of \<^verbatim>\<open>geom\<close> itself, so the array the loop
  writes is an array the signatures may read: the model names the aliased array by an
  \<open>attribute\<close> and keeps it inside the geometry.  The keys of the \<^verbatim>\<open>unordered_map\<close>
  are the \<^verbatim>\<open>size_t\<close> images of \<^verbatim>\<open>int\<close> values, kept here as the \<^verbatim>\<open>int\<close> values
  (the conversion is one-to-one); \<^verbatim>\<open>data[idx]\<close> with a negative or too large \<open>idx\<close>
  is undefined.
\<close>

datatype attribute = Vertex | Normal | Tangent | Color | UV

fun indices_of :: "attribute \<Rightarrow> GeometryImpl \<Rightarrow> int list" where
  "indices_of Vertex g = vertex_indices g"
| "indices_of Normal g = normal_indices g"
| "indices_of Tangent g = tangent_indices g"
| "indices_of Color g = color_indices g"
| "indices_of UV g = uv_indices g"

fun set_indices :: "attribute \<Rightarrow> int list \<Rightarrow> GeometryImpl \<Rightarrow> GeometryImpl" where
  "set_indices Vertex xs g = g\<lparr>vertex_indices := xs\<rparr>"
| "set_indices Normal xs g = g\<lparr>normal_indices := xs\<rparr>"
| "set_indices Tangent xs g = g\<lparr>tangent_indices := xs\<rparr>"
| "set_indices Color xs g = g\<lparr>color_indices := xs\<rparr>"
| "set_indices UV xs g = g\<lparr>uv_indices := xs\<rparr>"

text \<open>The body of the loop of lines 100--114, on the state \<^verbatim>\<open>data\<close>, \<^verbatim>\<open>geom\<close>
  (which holds \<^verbatim>\<open>indices\<close>) and \<^verbatim>\<open>map\<close>.\<close>

definition expand_body ::
  "attribute \<Rightarrow> int \<Rightarrow> nat \<Rightarrow> 'a list \<Rightarrow> GeometryImpl \<Rightarrow> (int \<rightharpoonup> VertexData)
     \<Rightarrow> error + ('a list \<times> GeometryImpl \<times> (int \<rightharpoonup> VertexData))" where
  "expand_body a msk i data geom m =
     (let idx = indices_of a geom ! i
      in case VertexData_of geom i msk of
           Inl e \<Rightarrow> Inl e
         | Inr vtx \<Rightarrow>
             (case m idx of
                None \<Rightarrow> Inr (data, geom, m(idx \<mapsto> vtx))
              | Some seen \<Rightarrow>
                  if VertexData_differs seen vtx then
                    (if idx < 0 \<or> length data \<le> nat idx
                       then Inl (UndefinedBehaviour ''data[idx]'')
                     else
                       let new_idx = int (length data)
                       in Inr (data @ [data ! nat idx],
                               set_indices a ((indices_of a geom)[i := new_idx]) geom,
                               m(new_idx \<mapsto> vtx)))
                  else Inr (data, geom, m)))"

function expand_loop ::
  "attribute \<Rightarrow> int \<Rightarrow> nat \<Rightarrow> 'a list \<Rightarrow> GeometryImpl \<Rightarrow> (int \<rightharpoonup> VertexData)
     \<Rightarrow> error + ('a list \<times> GeometryImpl)" where
  "expand_loop a msk i data geom m =
     (if i < length (indices_of a geom) then
        (case expand_body a msk i data geom m of
           Inl e \<Rightarrow> Inl e
         | Inr (data', geom', m') \<Rightarrow> expand_loop a msk (i + 1) data' geom' m')
      else Inr (data, geom))"
  by pat_completeness auto
termination
proof (relation "measure (\<lambda>(a, msk, i, data, geom, m). length (indices_of a geom) - i)")
  fix a :: attribute and msk i and data :: "'a list" and geom m x2 data' y geom' m'
  assume "i < length (indices_of a geom)" and "expand_body a msk i data geom m = Inr x2"
    and "(data', y) = x2" and "(geom', m') = y"
  then have "length (indices_of a geom') = length (indices_of a geom)"
    by (cases a) (auto simp: expand_body_def Let_def split: sum.splits option.splits if_splits)
  with \<open>i < length (indices_of a geom)\<close>
  show "((a, msk, i + 1, data', geom', m'), a, msk, i, data, geom, m)
          \<in> measure (\<lambda>(a, msk, i, data, geom, m). length (indices_of a geom) - i)"
    by simp
qed simp

definition expand ::
  "'a list \<Rightarrow> attribute \<Rightarrow> GeometryImpl \<Rightarrow> int \<Rightarrow> error + ('a list \<times> GeometryImpl)" where
  "expand data a geom msk =
     (if indices_of a geom = [] then Inl (UndefinedBehaviour ''indices[0]'')
      else
        case VertexData_of geom 0 msk of
          Inl e \<Rightarrow> Inl e
        | Inr vtx \<Rightarrow> expand_loop a msk 1 data geom (Map.empty(indices_of a geom ! 0 \<mapsto> vtx)))"

subsection \<open>Invariants of the expansion loop\<close>

text \<open>
  What the loop of \<open>expand\<close> keeps, relative to the call's arguments \<open>data0\<close> and
  \<open>geom0\<close>, when it is about to treat loop position \<open>i\<close>: only the aliased index array of
  the geometry differs, and only below \<open>i\<close>; the buffer has grown by copies of its own
  entries; every key of the map is the present index of a treated position with that
  position's signature; and a treated position whose index changed received a new slot
  because an earlier position holds its old index with another signature.
\<close>

definition expand_frame_inv ::
  "attribute \<Rightarrow> int \<Rightarrow> 'a list \<Rightarrow> GeometryImpl \<Rightarrow> nat \<Rightarrow> 'a list \<Rightarrow> GeometryImpl
     \<Rightarrow> (int \<rightharpoonup> VertexData) \<Rightarrow> bool" where
  "expand_frame_inv a msk data0 geom0 i data geom m \<longleftrightarrow>
     1 \<le> i \<and> i \<le> length (indices_of a geom0)
     \<and> geom = set_indices a (indices_of a geom) geom0
     \<and> length (indices_of a geom) = length (indices_of a geom0)
     \<and> (\<forall>j. i \<le> j \<longrightarrow> indices_of a geom ! j = indices_of a geom0 ! j)
     \<and> indices_of a geom ! 0 = indices_of a geom0 ! 0
     \<and> (\<exists>ext. data = data0 @ ext \<and> set ext \<subseteq> set data0)
     \<and> (\<forall>k v. m k = Some v \<longrightarrow>
            (\<exists>j<i. indices_of a geom ! j = k \<and> VertexData_of geom0 j msk = Inr v))
     \<and> (\<forall>j<i. indices_of a geom ! j \<noteq> indices_of a geom0 ! j \<longrightarrow>
            int (length data0) \<le> indices_of a geom ! j
            \<and> (\<exists>j'<j. indices_of a geom ! j' = indices_of a geom0 ! j
                      \<and> VertexData_of geom0 j' msk \<noteq> VertexData_of geom0 j msk))"


text \<open>
  When moreover every index of the call is a valid index into \<open>data0\<close>: every treated
  position holds a valid index into the grown buffer, and the map holds that position's
  signature under that index.
\<close>

definition expand_range_inv ::
  "attribute \<Rightarrow> int \<Rightarrow> 'a list \<Rightarrow> GeometryImpl \<Rightarrow> nat \<Rightarrow> 'a list \<Rightarrow> GeometryImpl
     \<Rightarrow> (int \<rightharpoonup> VertexData) \<Rightarrow> bool" where
  "expand_range_inv a msk data0 geom0 i data geom m \<longleftrightarrow>
     expand_frame_inv a msk data0 geom0 i data geom m
     \<and> (\<forall>j<length (indices_of a geom0).
            0 \<le> indices_of a geom0 ! j \<and> indices_of a geom0 ! j < int (length data0))
     \<and> (\<forall>j<i. 0 \<le> indices_of a geom ! j \<and> indices_of a geom ! j < int (length data)
               \<and> (\<exists>v. m (indices_of a geom ! j) = Some v \<and> VertexData_of geom0 j msk = Inr v))"


text \<open>\<^verbatim>\<open>remapForRendering(out, indices, mapping)\<close>, lines 117--129.\<close>

function remap_loop ::
  "nat \<Rightarrow> 'a list \<Rightarrow> 'a list \<Rightarrow> int list \<Rightarrow> int list \<Rightarrow> error + 'a list" where
  "remap_loop i out old indices mapping =
     (if i < length indices then
        (if length mapping \<le> i then Inl (UndefinedBehaviour ''mapping[i]'')
         else
           let idx = mapping ! i;
               ref = indices ! i
           in if ref < 0 \<or> length old \<le> nat ref then Inl (UndefinedBehaviour ''old[ref]'')
              else if idx < 0 \<or> length out \<le> nat idx then Inl (UndefinedBehaviour ''(*out)[idx]'')
              else remap_loop (i + 1) (out[nat idx := old ! nat ref]) old indices mapping)
      else Inr out)"
  by pat_completeness auto
termination
  by (relation "measure (\<lambda>(i, out, old, indices, mapping). length indices - i)") auto

definition remapForRendering :: "'a list \<Rightarrow> int list \<Rightarrow> int list \<Rightarrow> error + 'a list" where
  "remapForRendering out indices mapping =
     (if out = [] then Inr out else remap_loop 0 out out indices mapping)"


section \<open>Geometry assembly\<close>

text \<open>
  \<^verbatim>\<open>parseGeometryForRendering(scene, element)\<close>, lines 131--264, in the order of the
  source.  The \<^verbatim>\<open>scene\<close> only reaches the constructor of the record.
\<close>

text \<open>The loop of lines 172--179 over the decoded material ids \<^verbatim>\<open>tmp\<close>.\<close>

fun material_loop :: "externals \<Rightarrow> int list \<Rightarrow> int \<Rightarrow> GeometryImpl \<Rightarrow> error + GeometryImpl" where
  "material_loop ext [] tmp_i geom = Inr geom"
| "material_loop ext (t # tmp) tmp_i geom =
     (case getTriCountFromPoly ext (vertex_indices geom) tmp_i of
        Inl e \<Rightarrow> Inl e
      | Inr (tri_count, tmp_i') \<Rightarrow>
          material_loop ext tmp tmp_i' (geom\<lparr>materials := materials geom @ replicate (nat tri_count) t\<rparr>))"

text \<open>Lines 150--185: the material layer.  \<^verbatim>\<open>first_property\<close> is followed unchecked.\<close>

definition parseMaterialLayer :: "externals \<Rightarrow> Element \<Rightarrow> GeometryImpl \<Rightarrow> error + GeometryImpl" where
  "parseMaterialLayer ext element geom =
     (case findChild element ''LayerElementMaterial'' of
        None \<Rightarrow> Inr geom
      | Some layer \<Rightarrow>
          (case findChild layer ''MappingInformationType'' of
             None \<Rightarrow> Inl (Error ''Invalid LayerElementMaterial'')
           | Some mapping_element \<Rightarrow>
          (case findChild layer ''ReferenceInformationType'' of
             None \<Rightarrow> Inl (Error ''Invalid LayerElementMaterial'')
           | Some reference_element \<Rightarrow>
          (case first_property mapping_element of
             None \<Rightarrow> Inl (UndefinedBehaviour ''mapping_element->first_property'')
           | Some mp \<Rightarrow>
               if DataView_eq (prop_value mp) ''ByPolygon'' then
                 (case first_property reference_element of
                    None \<Rightarrow> Inl (UndefinedBehaviour ''reference_element->first_property'')
                  | Some rp \<Rightarrow>
                      if DataView_eq (prop_value rp) ''IndexToDirect'' then
                        (case findChild layer ''Materials'' of
                           None \<Rightarrow> Inl (Error ''Invalid LayerElementMaterial'')
                         | Some indices_element \<Rightarrow>
                        (case first_property indices_element of
                           None \<Rightarrow> Inl (Error ''Invalid LayerElementMaterial'')
                         | Some ip \<Rightarrow>
                        (case parseBinaryArray (decompress ext) 4 ip [] of
                           Inl e \<Rightarrow> Inl e
                         | Inr (ok, tmp) \<Rightarrow>
                             if \<not> ok then Inl (Error ''Failed to parse material indices'')
                             else material_loop ext (ints_of_bytes tmp) 0 geom)))
                      else Inl (Error ''Mapping not supported''))
               else if \<not> DataView_eq (prop_value mp) ''AllSame'' then Inl (Error ''Mapping not supported'')
               else Inr geom))))"

text \<open>
  One attribute layer (lines 190--195, 198--211, 214--219, 222--227):
  \<^verbatim>\<open>parseVertexData\<close> into the layer's two vectors, then \<^verbatim>\<open>generateIndices\<close>.  The
  variable \<^verbatim>\<open>mapping\<close> is shared by the four layers and starts uninitialised.
\<close>

definition parseLayer ::
  "externals \<Rightarrow> nat \<Rightarrow> Element \<Rightarrow> string \<Rightarrow> string \<Rightarrow> string \<Rightarrow> u8 list list \<Rightarrow> int list
     \<Rightarrow> VertexDataMapping option \<Rightarrow> int list
     \<Rightarrow> error + (u8 list list \<times> int list \<times> VertexDataMapping option)" where
  "parseLayer ext sizeofT layer name index_name message data indices mapping vertiex_indices =
     (case parseVertexData ext sizeofT layer name index_name (concat data) indices mapping of
        Inl e \<Rightarrow> Inl e
      | Inr (ok, out, out_indices, mapping') \<Rightarrow>
          if \<not> ok then Inl (Error message)
          else
            (case mapping' of
               None \<Rightarrow> Inl (UndefinedBehaviour ''mapping is read uninitialised'')
             | Some mp \<Rightarrow>
                 (case generateIndices out_indices (chunks sizeofT out) mp vertiex_indices of
                    Inl e \<Rightarrow> Inl e
                  | Inr ix \<Rightarrow> Inr (chunks sizeofT out, ix, mapping'))))"

definition parseLayerUV ::
  "externals \<Rightarrow> Element \<Rightarrow> GeometryImpl \<Rightarrow> VertexDataMapping option
     \<Rightarrow> error + (GeometryImpl \<times> VertexDataMapping option)" where
  "parseLayerUV ext element geom mapping =
     (case findChild element ''LayerElementUV'' of
        None \<Rightarrow> Inr (geom, mapping)
      | Some layer \<Rightarrow>
          (case parseLayer ext 16 layer ''UV'' ''UVIndex'' ''Invalid UVs''
                  (uvs geom) (uv_indices geom) mapping (vertex_indices geom) of
             Inl e \<Rightarrow> Inl e
           | Inr (d, ix, mapping') \<Rightarrow> Inr (geom\<lparr>uvs := d, uv_indices := ix\<rparr>, mapping')))"

definition parseLayerTangents ::
  "externals \<Rightarrow> Element \<Rightarrow> GeometryImpl \<Rightarrow> VertexDataMapping option
     \<Rightarrow> error + (GeometryImpl \<times> VertexDataMapping option)" where
  "parseLayerTangents ext element geom mapping =
     (case findChild element ''LayerElementTangents'' of
        None \<Rightarrow> Inr (geom, mapping)
      | Some layer \<Rightarrow>
          (case (if findChild layer ''Tangents'' \<noteq> None
                 then parseLayer ext 24 layer ''Tangents'' ''TangentsIndex'' ''Invalid tangets''
                        (tangents geom) (tangent_indices geom) mapping (vertex_indices geom)
                 else parseLayer ext 24 layer ''Tangent'' ''TangentIndex'' ''Invalid tangets''
                        (tangents geom) (tangent_indices geom) mapping (vertex_indices geom)) of
             Inl e \<Rightarrow> Inl e
           | Inr (d, ix, mapping') \<Rightarrow> Inr (geom\<lparr>tangents := d, tangent_indices := ix\<rparr>, mapping')))"

definition parseLayerColor ::
  "externals \<Rightarrow> Element \<Rightarrow> GeometryImpl \<Rightarrow> VertexDataMapping option
     \<Rightarrow> error + (GeometryImpl \<times> VertexDataMapping option)" where
  "parseLayerColor ext element geom mapping =
     (case findChild element ''LayerElementColor'' of
        None \<Rightarrow> Inr (geom, mapping)
      | Some layer \<Rightarrow>
          (case parseLayer ext 32 layer ''Colors'' ''ColorIndex'' ''Invalid colors''
                  (colors geom) (color_indices geom) mapping (vertex_indices geom) of
             Inl e \<Rightarrow> Inl e
           | Inr (d, ix, mapping') \<Rightarrow> Inr (geom\<lparr>colors := d, color_indices := ix\<rparr>, mapping')))"

definition parseLayerNormal ::
  "externals \<Rightarrow> Element \<Rightarrow> GeometryImpl \<Rightarrow> VertexDataMapping option
     \<Rightarrow> error + (GeometryImpl \<times> VertexDataMapping option)" where
  "parseLayerNormal ext element geom mapping =
     (case findChild element ''LayerElementNormal'' of
        None \<Rightarrow> Inr (geom, mapping)
      | Some layer \<Rightarrow>
          (case parseLayer ext 24 layer ''Normals'' ''NormalsIndex'' ''Invalid normals''
                  (normals geom) (normal_indices geom) mapping (vertex_indices geom) of
             Inl e \<Rightarrow> Inl e
           | Inr (d, ix, mapping') \<Rightarrow> Inr (geom\<lparr>normals := d, normal_indices := ix\<rparr>, mapping')))"

text \<open>
  Lines 133--148: the positions, the polygon stream and its triangulation; the result is
  the record with the vector \<^verbatim>\<open>to_old_indices\<close>.
\<close>

definition parseVerticesAndPolygons :: "externals \<Rightarrow> Element \<Rightarrow> error + (GeometryImpl \<times> int list)" where
  "parseVerticesAndPolygons ext element =
     (if first_property element = None then Inl (AssertionFailed ''element.first_property'')
      else
        case findChild element ''Vertices'' of
          None \<Rightarrow> Inl (Error ''Vertices missing'')
        | Some vertices_element \<Rightarrow>
        (case first_property vertices_element of
          None \<Rightarrow> Inl (Error ''Vertices missing'')
        | Some vp \<Rightarrow>
        (case findChild element ''PolygonVertexIndex'' of
          None \<Rightarrow> Inl (Error ''Indices missing'')
        | Some polys_element \<Rightarrow>
        (case first_property polys_element of
          None \<Rightarrow> Inl (Error ''Indices missing'')
        | Some pp \<Rightarrow>
        (case parseDoubleVecData ext 24 vp [] of
          Inl e \<Rightarrow> Inl e
        | Inr (ok, vs) \<Rightarrow>
            if \<not> ok then Inl (Error ''Failed to parse vertices'')
            else
              (case parseBinaryArray (decompress ext) 4 pp [] of
                 Inl e \<Rightarrow> Inl e
               | Inr (ok', ps) \<Rightarrow>
                   if \<not> ok' then Inl (Error ''Failed to parse indices'')
                   else
                     (case triangulate (ints_of_bytes ps) [] [] of
                        (old', ind, to_old_indices) \<Rightarrow>
                          Inr (empty_geometry\<lparr>vertices := chunks 24 vs, vertex_indices := old',
                                              triangles := ind\<rparr>,
                               to_old_indices))))))))"

text \<open>Lines 133--227: everything before the expansion.\<close>

definition parseLayers :: "externals \<Rightarrow> Element \<Rightarrow> error + (GeometryImpl \<times> int list)" where
  "parseLayers ext element =
     (case parseVerticesAndPolygons ext element of
        Inl e \<Rightarrow> Inl e
      | Inr (g0, to_old_indices) \<Rightarrow>
     (case parseMaterialLayer ext element g0 of
        Inl e \<Rightarrow> Inl e
      | Inr g1 \<Rightarrow>
     (case parseLayerUV ext element g1 None of
        Inl e \<Rightarrow> Inl e
      | Inr (g2, m2) \<Rightarrow>
     (case parseLayerTangents ext element g2 m2 of
        Inl e \<Rightarrow> Inl e
      | Inr (g3, m3) \<Rightarrow>
     (case parseLayerColor ext element g3 m3 of
        Inl e \<Rightarrow> Inl e
      | Inr (g4, m4) \<Rightarrow>
     (case parseLayerNormal ext element g4 m4 of
        Inl e \<Rightarrow> Inl e
      | Inr (g5, m5) \<Rightarrow> Inr (g5, to_old_indices)))))))"

text \<open>Lines 231--255: \<^verbatim>\<open>expand\<close> of the positions, then \<^verbatim>\<open>expand\<close> and
  \<^verbatim>\<open>remapForRendering\<close> of every attribute that is present.\<close>

definition expandVertices :: "GeometryImpl \<Rightarrow> error + GeometryImpl" where
  "expandVertices geom =
     (case expand (vertices geom) Vertex geom EXCLUDE_VERTEX of
        Inl e \<Rightarrow> Inl e
      | Inr (d, g) \<Rightarrow> Inr (g\<lparr>vertices := d\<rparr>))"

definition expandNormals :: "GeometryImpl \<Rightarrow> error + GeometryImpl" where
  "expandNormals geom =
     (if normals geom = [] then Inr geom
      else
        case expand (normals geom) Normal geom EXCLUDE_NORMAL of
          Inl e \<Rightarrow> Inl e
        | Inr (d, g) \<Rightarrow>
            (case remapForRendering d (normal_indices g) (vertex_indices g) of
               Inl e \<Rightarrow> Inl e
             | Inr d' \<Rightarrow> Inr (g\<lparr>normals := d'\<rparr>)))"

definition expandTangents :: "GeometryImpl \<Rightarrow> error + GeometryImpl" where
  "expandTangents geom =
     (if tangents geom = [] then Inr geom
      else
        case expand (tangents geom) Tangent geom EXCLUDE_TANGENT of
          Inl e \<Rightarrow> Inl e
        | Inr (d, g) \<Rightarrow>
            (case remapForRendering d (tangent_indices g) (vertex_indices g) of
               Inl e \<Rightarrow> Inl e
             | Inr d' \<Rightarrow> Inr (g\<lparr>tangents := d'\<rparr>)))"

definition expandColors :: "GeometryImpl \<Rightarrow> error + GeometryImpl" where
  "expandColors geom =
     (if colors geom = [] then Inr geom
      else
        case expand (colors geom) Color geom EXCLUDE_COLOR of
          Inl e \<Rightarrow> Inl e
        | Inr (d, g) \<Rightarrow>
            (case remapForRendering d (color_indices g) (vertex_indices g) of
               Inl e \<Rightarrow> Inl e
             | Inr d' \<Rightarrow> Inr (g\<lparr>colors := d'\<rparr>)))"

definition expandUVs :: "GeometryImpl \<Rightarrow> error + GeometryImpl" where
  "expandUVs geom =
     (if uvs geom = [] then Inr geom
      else
        case expand (uvs geom) UV geom EXCLUDE_UV of
          Inl e \<Rightarrow> Inl e
        | Inr (d, g) \<Rightarrow>
            (case remapForRendering d (uv_indices g) (vertex_indices g) of
               Inl e \<Rightarrow> Inl e
             | Inr d' \<Rightarrow> Inr (g\<lparr>uvs := d'\<rparr>)))"

text \<open>Lines 258--261: \<^verbatim>\<open>triangles[i] = vertex_indices[to_old_indices[i]]\<close>.\<close>

function remap_triangles :: "nat \<Rightarrow> int list \<Rightarrow> int list \<Rightarrow> int list \<Rightarrow> error + int list" where
  "remap_triangles i tris vertiex_indices to_old_indices =
     (if i < length tris then
        (if length to_old_indices \<le> i then Inl (UndefinedBehaviour ''to_old_indices[i]'')
         else
           let t = to_old_indices ! i
           in if t < 0 \<or> length vertiex_indices \<le> nat t
                then Inl (UndefinedBehaviour ''vertex_indices[to_old_indices[i]]'')
              else remap_triangles (i + 1) (tris[i := vertiex_indices ! nat t])
                     vertiex_indices to_old_indices)
      else Inr tris)"
  by pat_completeness auto
termination
  by (relation "measure (\<lambda>(i, tris, vi, to). length tris - i)") auto

text \<open>Lines 229--263.\<close>

definition expandForRendering :: "GeometryImpl \<Rightarrow> int list \<Rightarrow> error + GeometryImpl" where
  "expandForRendering geom to_old_indices =
     (case expandVertices geom of
        Inl e \<Rightarrow> Inl e
      | Inr g1 \<Rightarrow>
     (case expandNormals g1 of
        Inl e \<Rightarrow> Inl e
      | Inr g2 \<Rightarrow>
     (case expandTangents g2 of
        Inl e \<Rightarrow> Inl e
      | Inr g3 \<Rightarrow>
     (case expandColors g3 of
        Inl e \<Rightarrow> Inl e
      | Inr g4 \<Rightarrow>
     (case expandUVs g4 of
        Inl e \<Rightarrow> Inl e
      | Inr g5 \<Rightarrow>
     (case remap_triangles 0 (triangles g5) (vertex_indices g5) to_old_indices of
        Inl e \<Rightarrow> Inl e
      | Inr tris \<Rightarrow> Inr (g5\<lparr>triangles := tris\<rparr>)))))))"

definition parseGeometryForRendering :: "externals \<Rightarrow> Element \<Rightarrow> error + GeometryImpl" where
  "parseGeometryForRendering ext element =
     (case parseLayers ext element of
        Inl e \<Rightarrow> Inl e
      | Inr (geom, to_old_indices) \<Rightarrow> expandForRendering geom to_old_indices)"


text \<open>An index array all of whose entries are positions of a data array.\<close>

definition valid_indices :: "int list \<Rightarrow> 'a list \<Rightarrow> bool" where
  "valid_indices ix data \<longleftrightarrow> (\<forall>x\<in>set ix. 0 \<le> x \<and> x < int (length data))"


section \<open>Example inputs\<close>

text \<open>Three loop positions over two control points; two normals.\<close>

definition split_example :: GeometryImpl where
  "split_example = empty_geometry\<lparr>vertex_indices := [0, 1, 0], normal_indices := [0, 0, 1]\<rparr>"


text \<open>Four loop positions; the first normal index is the size of the normal buffer,
  the last one lies beyond it.\<close>

definition overlap_example :: GeometryImpl where
  "overlap_example = empty_geometry\<lparr>vertex_indices := [0, 1, 2, 3], normal_indices := [2, 0, 0, 7]\<rparr>"


text \<open>
  An element tree as the tokenizer delivers it: \<open>le32\<close> are the four bytes of a 32-bit
  value, \<open>raw_array\<close> an array property with encoding 0, \<open>string_property\<close> a string
  property.  \<open>quad_mesh\<close> has four control points, two triangles that share the edge
  (0, 2), and one normal that every loop position refers to through \<^verbatim>\<open>NormalsIndex\<close>.
  \<open>no_externals\<close> are collaborators that the example never reaches.
\<close>

definition le32 :: "int \<Rightarrow> u8 list" where
  "le32 x = bytes_of_u32 (word_of_int x)"

definition raw_array :: "char \<Rightarrow> nat \<Rightarrow> u8 list \<Rightarrow> Property" where
  "raw_array t count payload =
     \<lparr>prop_type = t, prop_value = le32 (int count) @ le32 0 @ le32 (int (length payload)) @ payload\<rparr>"

definition string_property :: "string \<Rightarrow> Property" where
  "string_property s = \<lparr>prop_type = CHR ''S'', prop_value = bytes_of_string s\<rparr>"

definition leaf :: "string \<Rightarrow> Property \<Rightarrow> Element" where
  "leaf name p = Element name (Some p) []"

definition no_externals :: externals where
  "no_externals =
     \<lparr>decompress = (\<lambda>i n out k. Inr (False, out)), float_to_double = (\<lambda>w. 0),
      getTriCountFromPoly = (\<lambda>xs i. Inr (0, i))\<rparr>"

definition quad_mesh :: Element where
  "quad_mesh = Element ''Geometry'' (Some (string_property ''Mesh''))
     [leaf ''Vertices'' (raw_array CHR ''d'' 12 (replicate 96 0)),
      leaf ''PolygonVertexIndex'' (raw_array CHR ''i'' 6 (concat (map le32 [0, 1, - 3, 0, 2, - 4]))),
      Element ''LayerElementNormal'' None
        [leaf ''MappingInformationType'' (string_property ''ByPolygonVertex''),
         leaf ''ReferenceInformationType'' (string_property ''IndexToDirect''),
         leaf ''Normals'' (raw_array CHR ''d'' 3 (replicate 24 7)),
         leaf ''NormalsIndex'' (raw_array CHR ''i'' 6 (concat (map le32 [0, 0, 0, 0, 0, 0])))]]"





text \<open>A triangle whose last corner names control point 7 of four, and no attribute layer.\<close>

definition dangling_mesh :: Element where
  "dangling_mesh = Element ''Geometry'' (Some (string_property ''Mesh''))
     [leaf ''Vertices'' (raw_array CHR ''d'' 12 (replicate 96 0)),
      leaf ''PolygonVertexIndex'' (raw_array CHR ''i'' 3 (concat (map le32 [0, 1, - 8])))]"


text \<open>Five control points of which a triangle uses the last three, with one normal for
  each of its three corners.\<close>

definition sparse_mesh :: Element where
  "sparse_mesh = Element ''Geometry'' (Some (string_property ''Mesh''))
     [leaf ''Vertices'' (raw_array CHR ''d'' 15 (replicate 120 0)),
      leaf ''PolygonVertexIndex'' (raw_array CHR ''i'' 3 (concat (map le32 [2, 3, - 5]))),
      Element ''LayerElementNormal'' None
        [leaf ''MappingInformationType'' (string_property ''ByPolygonVertex''),
         leaf ''ReferenceInformationType'' (string_property ''Direct''),
         leaf ''Normals'' (raw_array CHR ''d'' 9 (replicate 72 7))]]"


section \<open>Properties of the triangulator\<close>

declare triangulate_loop.simps [simp del]
declare chunks.simps [simp del]
declare fill_identity.simps [simp del]
declare expand_loop.simps [simp del]
declare remap_loop.simps [simp del]
declare remap_triangles.simps [simp del]

lemma length_triangulate_body [simp]:
  "length (tri_old_indices (triangulate_body i s)) = length (tri_old_indices s)"
  by (simp add: triangulate_body_def Let_def)

lemma triangulate_body_counter_le:
  "tri_in_polygon_idx s \<le> i \<Longrightarrow> tri_in_polygon_idx (triangulate_body i s) \<le> i + 1"
  by (simp add: triangulate_body_def Let_def)

lemma loop_polygon:
  assumes "todo \<noteq> []" "\<forall>c\<in>set todo. 0 \<le> c" "\<forall>c\<in>set front. 0 \<le> c"
  shows "triangulate_loop (length pre + length front)
           \<lparr>tri_old_indices = pre @ front @ encode_polygon todo @ rest, tri_indices = ind, tri_to_old = to,
            tri_in_polygon_idx = length front\<rparr>
       = triangulate_loop (length pre + length front + length todo)
           \<lparr>tri_old_indices = pre @ front @ todo @ rest, tri_indices = ind @ fan_emit front todo,
            tri_to_old = to @ pos_emit (length pre) (length front) (length todo), tri_in_polygon_idx = 0\<rparr>"
  using assms
proof (induction todo arbitrary: front ind to)
  case Nil
  then show ?case by simp
next
  case (Cons c t)
  let ?i = "length pre + length front"
  show ?case
  proof (cases t)
    case Nil
    have nth: "(pre @ front @ encode_polygon [c] @ rest) ! ?i = - c - 1"
      by (simp add: encode_polygon_def nth_append)
    show ?thesis using Cons.prems Nil
      apply (subst triangulate_loop.simps)
      apply (simp add: triangulate_body_def getIdx_def nth Let_def)
      apply (simp add: encode_polygon_def nth_append list_update_append hd_conv_nth last_conv_nth)
      done
  next
    case (Cons c' t')
    have enc: "encode_polygon (c # t) = c # encode_polygon t"
      using Cons by (simp add: encode_polygon_def)
    have nth: "(pre @ front @ (c # encode_polygon t) @ rest) ! ?i = c"
      by (simp add: nth_append)
    have first: "\<not> length front \<le> 2 \<Longrightarrow> (pre @ front @ c # encode_polygon t @ rest) ! length pre = hd front"
      by (cases front) (simp_all add: nth_append)
    have prev: "\<not> length front \<le> 2 \<Longrightarrow>
        (pre @ front @ c # encode_polygon t @ rest) ! (length pre + length front - Suc 0) = last front"
      by (cases front rule: rev_cases) (simp_all add: nth_append)
    have ih: "triangulate_loop (length pre + length (front @ [c]))
           \<lparr>tri_old_indices = pre @ (front @ [c]) @ encode_polygon t @ rest, tri_indices = ind', tri_to_old = to',
            tri_in_polygon_idx = length (front @ [c])\<rparr>
       = triangulate_loop (length pre + length (front @ [c]) + length t)
           \<lparr>tri_old_indices = pre @ (front @ [c]) @ t @ rest, tri_indices = ind' @ fan_emit (front @ [c]) t,
            tri_to_old = to' @ pos_emit (length pre) (length (front @ [c])) (length t), tri_in_polygon_idx = 0\<rparr>"
      for ind' to'
      using Cons.prems Cons by (intro Cons.IH) auto
    show ?thesis
      apply (subst triangulate_loop.simps)
      using Cons.prems ih
      apply (simp add: enc triangulate_body_def getIdx_def nth Let_def first prev)
      done
  qed
qed

lemma loop_polygons:
  assumes "\<forall>p\<in>set polys. p \<noteq> [] \<and> (\<forall>c\<in>set p. 0 \<le> c)"
  shows "triangulate_loop (length pre)
           \<lparr>tri_old_indices = pre @ concat (map encode_polygon polys), tri_indices = ind, tri_to_old = to,
            tri_in_polygon_idx = 0\<rparr>
       = \<lparr>tri_old_indices = pre @ concat polys, tri_indices = ind @ concat (map (fan_emit []) polys),
            tri_to_old = to @ concat_pos (length pre) polys, tri_in_polygon_idx = 0\<rparr>"
  using assms
proof (induction polys arbitrary: pre ind to)
  case Nil
  show ?case by (subst triangulate_loop.simps) simp
next
  case (Cons p ps)
  have "triangulate_loop (length pre + length ([]::int list))
           \<lparr>tri_old_indices = pre @ [] @ encode_polygon p @ concat (map encode_polygon ps), tri_indices = ind, tri_to_old = to,
            tri_in_polygon_idx = length ([]::int list)\<rparr>
       = triangulate_loop (length pre + length ([]::int list) + length p)
           \<lparr>tri_old_indices = pre @ [] @ p @ concat (map encode_polygon ps), tri_indices = ind @ fan_emit [] p,
            tri_to_old = to @ pos_emit (length pre) (length ([]::int list)) (length p), tri_in_polygon_idx = 0\<rparr>"
    using Cons.prems by (intro loop_polygon) auto
  moreover have "triangulate_loop (length (pre @ p))
           \<lparr>tri_old_indices = (pre @ p) @ concat (map encode_polygon ps), tri_indices = ind @ fan_emit [] p,
             tri_to_old = to @ pos_emit (length pre) 0 (length p), tri_in_polygon_idx = 0\<rparr>
       = \<lparr>tri_old_indices = (pre @ p) @ concat ps, tri_indices = (ind @ fan_emit [] p) @ concat (map (fan_emit []) ps),
            tri_to_old = (to @ pos_emit (length pre) 0 (length p)) @ concat_pos (length (pre @ p)) ps, tri_in_polygon_idx = 0\<rparr>"
    using Cons.prems by (intro Cons.IH) auto
  ultimately show ?case by simp
qed



lemma upt_shift: "[k..<k + Suc n] = k # [Suc k..<Suc k + n]"
  by (simp add: upt_conv_Cons del: upt_Suc)

lemma upt_split3: "3 \<le> n \<Longrightarrow> [0..<n] = [0, 1, 2] @ [3..<n]"
proof -
  assume "3 \<le> n"
  then obtain m where n: "n = 3 + m" using le_Suc_ex by blast
  have "[0..<3 + m] = [0..<3] @ [3..<3 + m]"
    using upt_add_eq_append [of 0 3 m] by simp
  moreover have "[0..<3] = [0, 1, 2]" by (simp add: numeral_3_eq_3 numeral_2_eq_2)
  ultimately show ?thesis by (simp add: n)
qed

lemma fan_emit_index:
  "fan_emit front todo =
     concat (map (\<lambda>j. if j \<le> 2 then [(front @ todo) ! j]
                        else [(front @ todo) ! 0, (front @ todo) ! (j - 1), (front @ todo) ! j])
                 [length front..<length front + length todo])"
proof (induction todo arbitrary: front)
  case Nil
  show ?case by simp
next
  case (Cons c t)
  have hd0: "\<not> length front \<le> 2 \<Longrightarrow> hd front = (front @ c # t) ! 0"
    by (cases front) simp_all
  have lst: "\<not> length front \<le> 2 \<Longrightarrow> last front = (front @ c # t) ! (length front - 1)"
    by (cases front rule: rev_cases) (simp_all add: nth_append)
  have upt: "[length front..<length front + length (c # t)]
               = length front # [length (front @ [c])..<length (front @ [c]) + length t]"
    using upt_shift [of "length front" "length t"] by (simp del: upt_Suc)
  show ?case
    unfolding upt by (simp add: Cons.IH [of "front @ [c]"] hd0 lst cong: if_cong)
qed

lemma fan_emit_fan_triangles:
  "fan_emit [] p = fan_triangles p"
proof (cases "3 \<le> length p")
  case True
  have c: "map (\<lambda>j. if j \<le> 2 then [p ! j] else [p ! 0, p ! (j - 1), p ! j]) [3..<length p]
         = map (\<lambda>k. [p ! 0, p ! (k - 1), p ! k]) [3..<length p]"
    by (rule map_cong) auto
  have idx: "fan_emit [] p
      = concat (map (\<lambda>j. if j \<le> 2 then [p ! j] else [p ! 0, p ! (j - 1), p ! j]) [0..<length p])"
    using fan_emit_index [of "[]" p] by (simp cong: if_cong)
  show ?thesis
    using True by (simp add: idx fan_triangles_def upt_split3 c)
next
  case False
  then have "p = [] \<or> (\<exists>a. p = [a]) \<or> (\<exists>a b. p = [a, b])"
    by (cases p; cases "tl p"; cases "tl (tl p)") auto
  then show ?thesis by (auto simp: fan_triangles_def)
qed

lemma pos_emit_index:
  "pos_emit off k n =
     concat (map (\<lambda>j. if j \<le> 2 then [int off + int j]
                        else [int off, int off + int j - 1, int off + int j]) [k..<k + n])"
proof (induction n arbitrary: k)
  case 0
  show ?case by simp
next
  case (Suc n)
  show ?case unfolding upt_shift by (simp add: Suc.IH)
qed

lemma pos_emit_fan_positions:
  "pos_emit off 0 n = fan_positions off n"
proof (cases "3 \<le> n")
  case True
  have c: "map (\<lambda>j. if j \<le> 2 then [int off + int j]
                        else [int off, int off + int j - 1, int off + int j]) [3..<n]
         = map (\<lambda>k. [int off, int off + int k - 1, int off + int k]) [3..<n]"
    by (rule map_cong) auto
  show ?thesis
    using pos_emit_index [of off 0 n] True by (simp add: fan_positions_def upt_split3 c)
next
  case False
  then have "n = 0 \<or> n = 1 \<or> n = 2" by linarith
  then show ?thesis
    by (auto simp: fan_positions_def numeral_2_eq_2)
qed

lemma concat_pos_stream_positions:
  "concat_pos off polys = stream_positions off polys"
  by (induction polys arbitrary: off) (simp_all add: pos_emit_fan_positions)

lemma length_concat_triples:
  "(\<And>x. length (f x) = 3) \<Longrightarrow> length (concat (map f xs)) = 3 * length xs"
  by (induction xs) simp_all

lemma length_fan_triangles: "3 \<le> length cs \<Longrightarrow> length (fan_triangles cs) = 3 * (length cs - 2)"
  by (simp add: fan_triangles_def length_concat_triples)

lemma fan_triangles_three: "length cs = 3 \<Longrightarrow> fan_triangles cs = cs"
proof -
  assume l: "length cs = 3"
  then obtain a b c where cs: "cs = [a, b, c]"
    by (cases cs; cases "tl cs"; cases "tl (tl cs)"; cases "tl (tl (tl cs))") auto
  show ?thesis by (simp add: cs fan_triangles_def)
qed

lemma fan_positions_pairing:
  assumes "length pre = off"
  shows "map (\<lambda>t. (pre @ p @ rest) ! nat t) (fan_positions off (length p)) = fan_triangles p"
proof (cases "3 \<le> length p")
  case True
  have nth: "k < length p \<Longrightarrow> (pre @ p @ rest) ! (off + k) = p ! k" for k
    using assms by (simp add: nth_append)
  have ne: "0 < length p" using True by linarith
  have n0: "(pre @ p @ rest) ! off = p ! 0" using nth [OF ne] by simp
  have n1: "(pre @ p @ rest) ! nat (int off + 1) = p ! 1"
    using nth [of 1] True by (simp add: nat_add_distrib)
  have n2: "(pre @ p @ rest) ! nat (int off + 2) = p ! 2"
    using nth [of 2] True by (simp add: nat_add_distrib)
  have rest: "map (map (\<lambda>t. (pre @ p @ rest) ! nat t) \<circ>
               (\<lambda>k. [int off, int off + int k - 1, int off + int k])) [3..<length p]
      = map (\<lambda>k. [p ! 0, p ! (k - 1), p ! k]) [3..<length p]"
  proof (rule map_cong [OF refl])
    fix k assume "k \<in> set [3..<length p]"
    then have k: "3 \<le> k" "k < length p" by auto
    have nk: "(pre @ p @ rest) ! nat (int off + int k) = p ! k"
      using nth [of k] k by (simp add: nat_add_distrib)
    have nk1: "(pre @ p @ rest) ! nat (int off + int k - 1) = p ! (k - 1)"
    proof -
      have "nat (int off + int k - 1) = off + (k - 1)" using k by linarith
      then show ?thesis using nth [of "k - 1"] k by simp
    qed
    show "(map (\<lambda>t. (pre @ p @ rest) ! nat t) \<circ>
               (\<lambda>k. [int off, int off + int k - 1, int off + int k])) k
         = [p ! 0, p ! (k - 1), p ! k]"
      using n0 nk nk1 by simp
  qed
  have first: "map (\<lambda>t. (pre @ p @ rest) ! nat t) [int off, int off + 1, int off + 2] = [p ! 0, p ! 1, p ! 2]"
    using n0 n1 n2 by simp
  have others: "map (\<lambda>t. (pre @ p @ rest) ! nat t)
                  (concat (map (\<lambda>k. [int off, int off + int k - 1, int off + int k]) [3..<length p]))
              = concat (map (\<lambda>k. [p ! 0, p ! (k - 1), p ! k]) [3..<length p])"
    unfolding map_concat map_map by (rule arg_cong [where f = concat]) (rule rest)
  have "map (\<lambda>t. (pre @ p @ rest) ! nat t) (fan_positions off (length p))
      = map (\<lambda>t. (pre @ p @ rest) ! nat t) [int off, int off + 1, int off + 2]
        @ map (\<lambda>t. (pre @ p @ rest) ! nat t)
            (concat (map (\<lambda>k. [int off, int off + int k - 1, int off + int k]) [3..<length p]))"
    using True unfolding fan_positions_def by (simp only: map_append not_less [symmetric] if_False)
  also have "\<dots> = [p ! 0, p ! 1, p ! 2] @ concat (map (\<lambda>k. [p ! 0, p ! (k - 1), p ! k]) [3..<length p])"
    by (simp only: first others)
  also have "\<dots> = fan_triangles p"
    using True unfolding fan_triangles_def by (simp only: not_less [symmetric] if_False)
  finally show ?thesis .
next
  case False
  then consider "p = []" | a where "p = [a]" | a b where "p = [a, b]"
    by (cases p; cases "tl p"; cases "tl (tl p)") auto
  then show ?thesis
  proof cases
    case 1
    then show ?thesis by (simp add: fan_positions_def fan_triangles_def)
  next
    case 2
    then show ?thesis using assms by (simp add: fan_positions_def fan_triangles_def nth_append)
  next
    case 3
    have "nat (int off + 1) = Suc off" by simp
    then show ?thesis using assms 3
      by (simp add: fan_positions_def fan_triangles_def nth_append numeral_2_eq_2)
  qed
qed

lemma stream_positions_pairing:
  "map (\<lambda>t. (pre @ concat polys) ! nat t) (stream_positions (length pre) polys)
     = concat (map fan_triangles polys)"
proof (induction polys arbitrary: pre)
  case Nil
  show ?case by simp
next
  case (Cons p ps)
  have a: "map (\<lambda>t. (pre @ p @ concat ps) ! nat t) (fan_positions (length pre) (length p)) = fan_triangles p"
    by (rule fan_positions_pairing) simp
  have b: "map (\<lambda>t. ((pre @ p) @ concat ps) ! nat t) (stream_positions (length (pre @ p)) ps)
             = concat (map fan_triangles ps)"
    by (rule Cons.IH)
  show ?case using a b by simp
qed

text \<open>
  Claim C3.  For a stream made of polygons of at least three non-negative corners each,
  every polygon ending in its sign-encoded last corner, \<open>triangulate\<close> appends exactly the
  fan triangulation of every polygon: the first three corners in order, then for every
  later corner the triangle (first corner, previous corner, that corner).  A polygon of
  \<open>n\<close> corners gives \<open>3 * (n - 2)\<close> indices, that is \<open>n - 2\<close> triangles, a triangle gives
  itself, and every emitted corner is the decoded stream entry at the position that
  \<open>to_old\<close> pairs it with.
\<close>

theorem triangulate_fan:
  assumes "\<forall>p\<in>set polys. 3 \<le> length p \<and> (\<forall>c\<in>set p. 0 \<le> c)"
  shows "triangulate (concat (map encode_polygon polys)) ind to
           = (concat polys, ind @ concat (map fan_triangles polys), to @ stream_positions 0 polys)
       \<and> map (\<lambda>t. concat polys ! nat t) (stream_positions 0 polys) = concat (map fan_triangles polys)
       \<and> (\<forall>p\<in>set polys. length (fan_triangles p) = 3 * (length p - 2)
                          \<and> (length p = 3 \<longrightarrow> fan_triangles p = p))"
proof -
  have wf: "\<forall>p\<in>set polys. p \<noteq> [] \<and> (\<forall>c\<in>set p. 0 \<le> c)"
    using assms by auto
  have three: "\<forall>p\<in>set polys. 3 \<le> length p"
    using assms by auto
  have fans: "map (fan_emit []) polys = map fan_triangles polys"
    by (simp add: fan_emit_fan_triangles)
  have "triangulate (concat (map encode_polygon polys)) ind to
           = (concat polys, ind @ concat (map fan_triangles polys), to @ stream_positions 0 polys)"
    using loop_polygons [OF wf, of "[]" ind to]
    by (simp add: triangulate_def fans concat_pos_stream_positions)
  moreover have "map (\<lambda>t. concat polys ! nat t) (stream_positions 0 polys) = concat (map fan_triangles polys)"
    using stream_positions_pairing [of "[]" polys] by simp
  ultimately show ?thesis
    using three by (simp add: length_fan_triangles fan_triangles_three)
qed

text \<open>Witness for C3: a pentagon followed by a triangle.\<close>

theorem triangulate_fan_witness:
  "triangulate (concat (map encode_polygon [[0, 1, 2, 3, 4], [7, 8, 9]])) [] []
     = ([0, 1, 2, 3, 4, 7, 8, 9], [0, 1, 2, 0, 2, 3, 0, 3, 4, 7, 8, 9], [0, 1, 2, 0, 2, 3, 0, 3, 4, 5, 6, 7])"
  using triangulate_fan [of "[[0, 1, 2, 3, 4], [7, 8, 9]]" "[]" "[]"]
  by (simp add: fan_triangles_def fan_positions_def)

lemma triangulate_body_old:
  "i < length (tri_old_indices s) \<Longrightarrow>
   tri_old_indices (triangulate_body i s) = (tri_old_indices s)[i := getIdx (tri_old_indices s) i]"
  by (simp add: triangulate_body_def Let_def getIdx_def)

lemma triangulate_body_counter:
  "tri_in_polygon_idx (triangulate_body i s)
     = (if tri_old_indices s ! i < 0 then 0 else tri_in_polygon_idx s + 1)"
  by (simp add: triangulate_body_def Let_def)

lemma triangulate_loop_old:
  "tri_old_indices (triangulate_loop i s)
     = take i (tri_old_indices s) @ map (\<lambda>e. if e < 0 then - e - 1 else e) (drop i (tri_old_indices s))"
proof (induction i s rule: triangulate_loop.induct)
  case (1 i s)
  show ?case
  proof (cases "i < length (tri_old_indices s)")
    case True
    let ?old = "tri_old_indices s"
    let ?d = "\<lambda>e::int. if e < 0 then - e - 1 else e"
    have "tri_old_indices (triangulate_loop i s) = tri_old_indices (triangulate_loop (i + 1) (triangulate_body i s))"
      using True by (subst triangulate_loop.simps) simp
    also have "\<dots> = take (i + 1) (?old[i := getIdx ?old i]) @ map ?d (drop (i + 1) (?old[i := getIdx ?old i]))"
      using "1.IH" [OF True] True by (simp add: triangulate_body_old)
    also have "\<dots> = take i ?old @ [?d (?old ! i)] @ map ?d (drop (Suc i) ?old)"
      using True by (simp add: take_Suc_conv_app_nth getIdx_def Let_def)
    also have "\<dots> = take i ?old @ map ?d (drop i ?old)"
      using True by (simp add: Cons_nth_drop_Suc [symmetric])
    finally show ?thesis .
  next
    case False
    then show ?thesis by (subst triangulate_loop.simps) simp
  qed
qed

lemma triangulate_old:
  "fst (triangulate old ind to) = map (\<lambda>e. if e < 0 then - e - 1 else e) old"
  by (simp add: triangulate_def Let_def triangulate_loop_old)

text \<open>
  Claim C4.  \<open>getIdx\<close> reads a negative entry \<open>e\<close> as \<open>- e - 1\<close>; the body of the loop
  resets the in-polygon counter exactly at a negative entry; the stream \<open>[2, 5, -4]\<close> is
  decoded to the corners \<open>[2, 5, 3]\<close> with the counter reset at position 2 and nowhere
  before; and for every stream \<open>triangulate\<close> leaves the stream with every negative entry
  replaced by its decoded value, so no negative entry remains.
\<close>

theorem triangulate_sign_decoding:
  "triangulate [2, 5, - 4] [] [] = ([2, 5, 3], [2, 5, 3], [0, 1, 2])
   \<and> map (getIdx [2, 5, - 4]) [0, 1, 2] = [2, 5, 3]
   \<and> (let s0 = \<lparr>tri_old_indices = [2, 5, - 4], tri_indices = [], tri_to_old = [], tri_in_polygon_idx = 0\<rparr>;
           s1 = triangulate_body 0 s0; s2 = triangulate_body 1 s1; s3 = triangulate_body 2 s2
       in map tri_in_polygon_idx [s1, s2, s3] = [1, 2, 0])
   \<and> (\<forall>i s. tri_in_polygon_idx (triangulate_body i s)
               = (if tri_old_indices s ! i < 0 then 0 else tri_in_polygon_idx s + 1))
   \<and> (\<forall>old i. getIdx old i = (if old ! i < 0 then - (old ! i) - 1 else old ! i))
   \<and> (\<forall>old ind to. fst (triangulate old ind to) = map (\<lambda>e. if e < 0 then - e - 1 else e) old)
   \<and> (\<forall>old ind to. \<forall>e\<in>set (fst (triangulate old ind to)). 0 \<le> e)"
proof -
  have a: "triangulate [2, 5, - 4] [] [] = ([2, 5, 3], [2, 5, 3], [0, 1, 2])"
    by (simp add: triangulate_def triangulate_loop.simps triangulate_body_def getIdx_def)
  have b: "map (getIdx [2, 5, - 4]) [0, 1, 2] = [2, 5, 3]"
    by (simp add: getIdx_def)
  have c: "(let s0 = \<lparr>tri_old_indices = [2, 5, - 4], tri_indices = [], tri_to_old = [], tri_in_polygon_idx = 0\<rparr>;
           s1 = triangulate_body 0 s0; s2 = triangulate_body 1 s1; s3 = triangulate_body 2 s2
       in map tri_in_polygon_idx [s1, s2, s3] = [1, 2, 0])"
    by (simp add: triangulate_body_def getIdx_def)
  have d: "\<forall>e\<in>set (fst (triangulate old ind to)). 0 \<le> e" for old ind to
    by (auto simp: triangulate_old)
  show ?thesis
    using a b c d by (simp add: triangulate_body_counter triangulate_old getIdx_def Let_def)
qed

text \<open>Witness for C4: two triangles; both terminal entries are rewritten.\<close>

theorem triangulate_sign_decoding_witness:
  "fst (triangulate [0, 1, - 3, 0, 2, - 4] [] []) = [0, 1, 2, 0, 2, 3]
   \<and> list_all (\<lambda>e. 0 \<le> e) (fst (triangulate [0, 1, - 3, 0, 2, - 4] [] []))"
  using triangulate_sign_decoding by (simp add: list_all_iff)

section \<open>Properties of default index generation\<close>

lemma length_fill_identity [simp]: "length (fill_identity i count xs) = length xs"
proof (induction i count xs rule: fill_identity.induct)
  case (1 i count xs)
  then show ?case by (subst fill_identity.simps) simp
qed

lemma fill_identity_eq:
  "length xs = count \<Longrightarrow> i \<le> count \<Longrightarrow> fill_identity i count xs = take i xs @ map int [i..<count]"
proof (induction i count xs rule: fill_identity.induct)
  case (1 i count xs)
  show ?case
  proof (cases "i < count")
    case True
    have "fill_identity i count xs = fill_identity (i + 1) count (xs[i := int i])"
      using True by (subst fill_identity.simps) simp
    also have "\<dots> = take (i + 1) (xs[i := int i]) @ map int [i + 1..<count]"
      using "1.IH" [OF True] "1.prems" True by simp
    also have "\<dots> = take i xs @ map int [i..<count]"
      using True "1.prems" by (simp add: take_Suc_conv_app_nth upt_conv_Cons)
    finally show ?thesis .
  next
    case False
    then show ?thesis using "1.prems" by (subst fill_identity.simps) simp
  qed
qed

lemma fill_identity_replicate:
  "fill_identity 0 count (replicate count 0) = map int [0..<count]"
  by (simp add: fill_identity_eq)

text \<open>
  Claim C5.  When the index array is empty and the asserted preconditions hold (the data
  array and \<^verbatim>\<open>vertex_indices\<close> are not empty, as they are after every successful
  decode), \<open>generateIndices\<close> returns the identity sequence \<open>0 .. N - 1\<close> over the
  length \<open>N\<close> of \<^verbatim>\<open>vertex_indices\<close> for \<open>BY_POLYGON_VERTEX\<close>, a copy of
  \<^verbatim>\<open>vertex_indices\<close> for \<open>BY_VERTEX\<close>, and stops at \<^verbatim>\<open>assert(false)\<close> for
  \<open>BY_POLYGON\<close>; for \<open>BY_POLYGON\<close> it yields no index array whatever the other
  arguments are.
\<close>

theorem generateIndices_default:
  assumes "(data :: 'a list) \<noteq> []" and "vertiex_indices \<noteq> []"
  shows "generateIndices [] data BY_POLYGON_VERTEX vertiex_indices
           = Inr (map int [0..<length vertiex_indices])
       \<and> generateIndices [] data BY_VERTEX vertiex_indices = Inr vertiex_indices
       \<and> generateIndices [] data BY_POLYGON vertiex_indices = Inl (AssertionFailed ''false'')
       \<and> (\<forall>d v. \<exists>e. generateIndices [] (d :: 'a list) BY_POLYGON v = Inl e)"
  using assms by (simp add: generateIndices_def resize_def fill_identity_replicate)

text \<open>Witness for C5: three loop vertices over the control points 4, 5, 6.\<close>

theorem generateIndices_default_witness:
  "generateIndices [] [()] BY_POLYGON_VERTEX [4, 5, 6] = Inr [0, 1, 2]
   \<and> generateIndices [] [()] BY_VERTEX [4, 5, 6] = Inr [4, 5, 6]
   \<and> generateIndices [] [()] BY_POLYGON [4, 5, 6] = Inl (AssertionFailed ''false'')"
  using generateIndices_default [of "[()]" "[4, 5, 6]"] by (simp add: upt_rec_numeral numeral_3_eq_3)

text \<open>
  Claim C9.  A non-empty index array whose length differs from the length of
  \<^verbatim>\<open>vertex_indices\<close> makes \<open>generateIndices\<close> stop at an assertion, and the layer
  whose decoding produced it is not carried on: \<open>parseLayer\<close> ends in an error, so the
  assembly never reaches the expansion with that array.
\<close>

theorem generateIndices_length_mismatch:
  assumes "indices \<noteq> []" and "length indices \<noteq> length vertiex_indices"
  shows "(\<exists>s. generateIndices indices data mapping vertiex_indices = Inl (AssertionFailed s))
       \<and> (parseVertexData ext sizeofT layer name index_name (concat data0) indices0 mapping0
             = Inr (True, out, indices, mapping')
           \<longrightarrow> (\<exists>e. parseLayer ext sizeofT layer name index_name message data0 indices0 mapping0
                        vertiex_indices = Inl e))"
  using assms by (auto simp: generateIndices_def parseLayer_def split: option.splits)

text \<open>Witness for C9: two indices against three loop vertices.\<close>

theorem generateIndices_length_mismatch_witness:
  "generateIndices [0, 1] [()] BY_VERTEX [0, 1, 2]
     = Inl (AssertionFailed ''indices->size() == vertiex_indices.size()'')"
  using generateIndices_length_mismatch [of "[0, 1]" "[0, 1, 2]" "[()]" BY_VERTEX]
  by (simp add: generateIndices_def)

section \<open>Properties of the typed array decoder\<close>

lemma sint_small: "unat (w :: 32 word) < 2 ^ 31 \<Longrightarrow> sint w = int (unat w)"
proof -
  assume a: "unat w < 2 ^ 31"
  have u: "uint w = int (unat w)" by simp
  have "int (unat w) < int (2 ^ 31)" using a by (simp only: of_nat_less_iff)
  then have "int (unat w) < 2 ^ 31" by simp
  moreover have "- (2 ^ 31) \<le> int (unat w)"
    by (rule order_trans [of _ 0]) simp_all
  ultimately have "signed_take_bit 31 (int (unat w)) = int (unat w)"
    by (intro signed_take_bit_int_eq_self)
  then show ?thesis by (simp add: sint_uint)
qed


lemma unat_mult_small: "a * unat (c :: 32 word) < 2 ^ 32 \<Longrightarrow> 0 < unat c \<Longrightarrow> unat (word_of_nat a * c) = a * unat c"
proof -
  assume a: "a * unat c < 2 ^ 32" and c: "0 < unat c"
  have "a \<le> a * unat c" using c by simp
  then have "a < 2 ^ 32" using a by linarith
  then have "unat (word_of_nat a :: 32 word) = a" by (simp add: unat_of_nat)
  then show ?thesis using a by (simp add: unat_word_ariths)
qed


lemma raw_elem_size_cases:
  "raw_elem_size t = Some e \<Longrightarrow> e = 4 \<or> e = 8"
  by (auto simp: raw_elem_size_def split: if_splits)


text \<open>
  The raw encoding on payloads of fewer than \<open>2^31\<close> bytes: the decoder fails exactly
  when the window passes the end of the property or \<open>byte_length\<close> exceeds
  \<open>max_size\<close>, and otherwise copies the payload byte for byte.
\<close>

lemma parseBinaryArrayRaw_raw_copy:
  assumes tag: "raw_elem_size (prop_type p) = Some elem_size"
      and header: "12 \<le> length (prop_value p)"
      and enc: "read_u32 (prop_value p) 4 = 0"
      and len: "unat (read_u32 (prop_value p) 8) = len" "len < 2 ^ 31"
      and capacity: "max_size \<le> int (length dst)"
  shows "parseBinaryArrayRaw inflate p (Some dst) max_size
           = (if length (prop_value p) < 12 + len \<or> max_size < int len then Inr (False, dst)
              else Inr (True, take len (drop 12 (prop_value p)) @ drop len dst))"
proof -
  have s: "sint (read_u32 (prop_value p) 8) = int len"
    using len by (simp add: sint_small)
  show ?thesis
    using tag header enc len(1) capacity
    by (auto simp: parseBinaryArrayRaw_def Let_def s)
qed

lemma parseBinaryArrayRaw_raw_copy_example:
  "parseBinaryArrayRaw inflate
     \<lparr>prop_type = CHR ''i'', prop_value = bytes_of_u32 2 @ bytes_of_u32 0 @ bytes_of_u32 8 @ [1, 0, 0, 0, 253, 255, 255, 255]\<rparr>
     (Some [9, 9, 9, 9, 9, 9, 9, 9, 9, 9]) 10
   = Inr (True, [1, 0, 0, 0, 253, 255, 255, 255, 9, 9])"
  using parseBinaryArrayRaw_raw_copy [of "\<lparr>prop_type = CHR ''i'', prop_value = bytes_of_u32 2 @ bytes_of_u32 0 @ bytes_of_u32 8 @ [1, 0, 0, 0, 253, 255, 255, 255]\<rparr>" 4 8 10 "[9, 9, 9, 9, 9, 9, 9, 9, 9, 9]" inflate]
  by (simp add: raw_elem_size_def bytes_of_u32_def read_u32_def)

text \<open>
  Claim C6, at the input where the code departs from it.  The property declares
  \<open>byte_length = 2^31\<close> and holds that many payload bytes; the destination has 4 bytes
  and \<open>max_size = 4\<close>.  \<^verbatim>\<open>(int)len\<close> is negative, so the capacity test of line 354
  passes, the window test of line 355 passes, and \<^verbatim>\<open>memcpy\<close> writes \<open>2^31\<close> bytes
  through the 4-byte destination: the decoder does not fail.
\<close>

theorem parseBinaryArrayRaw_raw_copy_overrun:
  "parseBinaryArrayRaw inflate
     \<lparr>prop_type = CHR ''i'',
      prop_value = bytes_of_u32 1 @ bytes_of_u32 0 @ bytes_of_u32 0x80000000 @ replicate 2147483648 0\<rparr>
     (Some [0, 0, 0, 0]) 4
   = Inl (UndefinedBehaviour ''memcpy writes past out'')"
  by (simp add: parseBinaryArrayRaw_def raw_elem_size_def bytes_of_u32_def read_u32_def)

text \<open>
  Claim C7, at the input where the code departs from it.  The property declares
  \<open>count = 0x20000000\<close> elements of 4 bytes with encoding 1; the destination has 16
  bytes and \<open>max_size = 16\<close>.  \<^verbatim>\<open>int(elem_size * count)\<close> is \<open>- 2^31\<close>, the test
  of line 361 passes, and the inflate primitive is called with the output size
  \<open>2^31\<close>: the decoder does not fail, and what is written is left to the primitive.
\<close>

theorem parseBinaryArrayRaw_inflate_unbounded:
  "parseBinaryArrayRaw inflate
     \<lparr>prop_type = CHR ''i'',
      prop_value = bytes_of_u32 0x20000000 @ bytes_of_u32 1 @ bytes_of_u32 3 @ [1, 2, 3]\<rparr>
     (Some (replicate 16 0)) 16
   = inflate [1, 2, 3] 3 (replicate 16 0) 2147483648"
  by (simp add: parseBinaryArrayRaw_def raw_elem_size_def bytes_of_u32_def read_u32_def)

text \<open>
  The compressed encoding when \<open>elem_size * count\<close> stays below \<open>2^31\<close>: the
  decoder fails when the product exceeds \<open>max_size\<close> and otherwise hands the window
  to the inflate primitive with the product as output size.
\<close>

lemma parseBinaryArrayRaw_inflate_bound:
  assumes tag: "raw_elem_size (prop_type p) = Some elem_size"
      and header: "12 \<le> length (prop_value p)"
      and enc: "read_u32 (prop_value p) 4 = 1"
      and small: "elem_size * unat (read_u32 (prop_value p) 0) < 2 ^ 31"
  shows "parseBinaryArrayRaw inflate p (Some dst) max_size
           = (if max_size < int (elem_size * unat (read_u32 (prop_value p) 0)) then Inr (False, dst)
              else inflate (drop 12 (prop_value p)) (unat (read_u32 (prop_value p) 8)) dst
                     (elem_size * unat (read_u32 (prop_value p) 0)))"
proof -
  let ?c = "read_u32 (prop_value p) 0"
  have u: "unat (word_of_nat elem_size * ?c) = elem_size * unat ?c"
  proof (cases "unat ?c = 0")
    case True
    then have "?c = 0" by (simp add: unat_eq_0)
    then show ?thesis by simp
  next
    case False
    then show ?thesis using small by (intro unat_mult_small) auto
  qed
  have s: "sint (word_of_nat elem_size * ?c) = int (elem_size * unat ?c)"
    using small u by (simp add: sint_small)
  show ?thesis
    using tag header enc by (simp add: parseBinaryArrayRaw_def Let_def s u)
qed




section \<open>Properties of the vertex expansion\<close>

lemma indices_of_set_indices [simp]: "indices_of a (set_indices a xs g) = xs"
  by (cases a) simp_all

lemma VertexData_differs_iff: "VertexData_differs x y \<longleftrightarrow> x \<noteq> y"
  by (cases x; cases y) (auto simp: VertexData_differs_def)

lemma set_indices_same [simp]: "set_indices a (indices_of a g) g = g"
  by (cases a) simp_all

lemma set_indices_twice [simp]: "set_indices a xs (set_indices a ys g) = set_indices a xs g"
  by (cases a) simp_all

lemma signature_field_agree:
  "length xs = length ys \<Longrightarrow> xs ! i = ys ! i \<Longrightarrow>
   signature_field xs i msk e = signature_field ys i msk e"
  by (cases xs; cases ys) (auto simp: signature_field_def)

lemma VertexData_of_set_indices:
  assumes "length xs = length (indices_of a g)" and "xs ! i = indices_of a g ! i"
  shows "VertexData_of (set_indices a xs g) i msk = VertexData_of g i msk"
  using assms
  by (cases a) (simp_all add: VertexData_of_def signature_field_agree [of xs _ i] cong: sum.case_cong)

text \<open>The generic loop rule: a property kept by the body holds when the loop returns.\<close>

lemma expand_loop_invariant:
  assumes "expand_loop a msk i data geom m = Inr (data', geom')"
      and "P i data geom m"
      and "\<And>i data geom m d g m'.
             P i data geom m \<Longrightarrow> i < length (indices_of a geom) \<Longrightarrow>
             expand_body a msk i data geom m = Inr (d, g, m') \<Longrightarrow> P (i + 1) d g m'"
  shows "\<exists>i' m'. P i' data' geom' m' \<and> length (indices_of a geom') \<le> i'"
  using assms
proof (induction a msk i data geom m rule: expand_loop.induct)
  case (1 a msk i data geom m)
  show ?case
  proof (cases "i < length (indices_of a geom)")
    case True
    from "1.prems"(1) True obtain d g m'
      where body: "expand_body a msk i data geom m = Inr (d, g, m')"
        and rest: "expand_loop a msk (i + 1) d g m' = Inr (data', geom')"
      by (subst (asm) expand_loop.simps) (auto split: sum.splits)
    have next_inv: "P (i + 1) d g m'"
      using "1.prems"(3) [OF "1.prems"(2) True body] .
    show ?thesis
    proof (rule "1.IH" [OF True body refl refl rest])
      show "P (i + 1) d g m'" by (rule next_inv)
    next
      fix i data geom m d g m'
      assume "P i data geom m" "i < length (indices_of a geom)"
        "expand_body a msk i data geom m = Inr (d, g, m')"
      then show "P (i + 1) d g m'" by (rule "1.prems"(3))
    qed
  next
    case False
    with "1.prems"(1) have "data' = data" "geom' = geom"
      by (subst (asm) expand_loop.simps; simp)+
    with False "1.prems"(2) show ?thesis
      by (intro exI [of _ i] exI [of _ m]) simp
  qed
qed

lemma expand_frame_inv_step:
  assumes inv: "expand_frame_inv a msk data0 geom0 i data geom m"
      and lt: "i < length (indices_of a geom)"
      and body: "expand_body a msk i data geom m = Inr (d, g, m')"
  shows "expand_frame_inv a msk data0 geom0 (i + 1) d g m'"
proof -
  let ?ix = "indices_of a geom" and ?orig = "indices_of a geom0"
  from inv have i1: "1 \<le> i" and geom: "geom = set_indices a ?ix geom0"
    and len: "length ?ix = length ?orig"
    and later: "\<And>j. i \<le> j \<Longrightarrow> ?ix ! j = ?orig ! j"
    and first: "?ix ! 0 = ?orig ! 0"
    and ext: "\<exists>ext. data = data0 @ ext \<and> set ext \<subseteq> set data0"
    and seen: "\<And>k v. m k = Some v \<Longrightarrow> \<exists>j<i. ?ix ! j = k \<and> VertexData_of geom0 j msk = Inr v"
    and changed: "\<And>j. j < i \<Longrightarrow> ?ix ! j \<noteq> ?orig ! j \<Longrightarrow>
            int (length data0) \<le> ?ix ! j
            \<and> (\<exists>j'<j. ?ix ! j' = ?orig ! j \<and> VertexData_of geom0 j' msk \<noteq> VertexData_of geom0 j msk)"
    unfolding expand_frame_inv_def by blast+
  have sig: "VertexData_of geom i msk = VertexData_of geom0 i msk"
    by (subst geom) (rule VertexData_of_set_indices [OF len later [OF le_refl]])
  from body obtain vtx where vtx: "VertexData_of geom0 i msk = Inr vtx"
    by (auto simp: expand_body_def Let_def sig split: sum.splits)
  have here: "?ix ! i = ?orig ! i" by (rule later) simp
  consider
      (fresh) "m (?ix ! i) = None" "d = data" "g = geom" "m' = m(?ix ! i \<mapsto> vtx)"
    | (same) "m (?ix ! i) = Some vtx" "d = data" "g = geom" "m' = m"
    | (split) seen' where "m (?ix ! i) = Some seen'" "seen' \<noteq> vtx"
        "0 \<le> ?ix ! i" "nat (?ix ! i) < length data"
        "d = data @ [data ! nat (?ix ! i)]"
        "g = set_indices a (?ix[i := int (length data)]) geom"
        "m' = m(int (length data) \<mapsto> vtx)"
    using body
    by (auto simp: expand_body_def Let_def sig vtx VertexData_differs_iff
             split: option.splits if_splits)
  then show ?thesis
  proof cases
    case fresh
    have "\<exists>j<i + 1. ?ix ! j = k \<and> VertexData_of geom0 j msk = Inr v" if "m' k = Some v" for k v
    proof (cases "k = ?ix ! i")
      case True
      with that fresh have "v = vtx" by simp
      with True vtx show ?thesis by (intro exI [of _ i]) simp
    next
      case False
      with that fresh have "m k = Some v" by simp
      from seen [OF this] obtain j where "j < i" "?ix ! j = k" "VertexData_of geom0 j msk = Inr v"
        by blast
      then show ?thesis by (intro exI [of _ j]) auto
    qed
    then show ?thesis
      using fresh i1 lt len geom later first ext changed here
      unfolding expand_frame_inv_def
      by (auto simp: less_Suc_eq)
  next
    case same
    have "\<exists>j<i + 1. ?ix ! j = k \<and> VertexData_of geom0 j msk = Inr v" if "m' k = Some v" for k v
    proof -
      from that same have "m k = Some v" by simp
      from seen [OF this] obtain j where "j < i" "?ix ! j = k" "VertexData_of geom0 j msk = Inr v"
        by blast
      then show ?thesis by (intro exI [of _ j]) auto
    qed
    then show ?thesis
      using same i1 lt len geom later first ext changed here
      unfolding expand_frame_inv_def
      by (auto simp: less_Suc_eq)
  next
    case split
    let ?new = "int (length data)"
    let ?ix' = "?ix[i := ?new]"
    have ix': "indices_of a g = ?ix'" using split by simp
    have g: "g = set_indices a ?ix' geom0"
      using split geom by (metis set_indices_twice)
    from ext obtain e where e: "data = data0 @ e" "set e \<subseteq> set data0" by blast
    have "data ! nat (?ix ! i) \<in> set data" using split by simp
    then have ext': "\<exists>ext. d = data0 @ ext \<and> set ext \<subseteq> set data0"
      using e split by (intro exI [of _ "e @ [data ! nat (?ix ! i)]"]) auto
    have ge: "int (length data0) \<le> ?new" using e by simp
    from seen [OF split(1)] obtain j' where j': "j' < i" "?ix ! j' = ?ix ! i"
      "VertexData_of geom0 j' msk = Inr seen'" by blast
    have conflict: "\<exists>j'<i. ?ix' ! j' = ?orig ! i \<and> VertexData_of geom0 j' msk \<noteq> VertexData_of geom0 i msk"
      using j' split(2) vtx here by (intro exI [of _ j']) auto
    have seen'': "\<exists>j<i + 1. ?ix' ! j = k \<and> VertexData_of geom0 j msk = Inr v" if "m' k = Some v" for k v
    proof (cases "k = ?new")
      case True
      with that split have "v = vtx" by simp
      with True vtx lt show ?thesis by (intro exI [of _ i]) simp
    next
      case False
      with that split have "m k = Some v" by simp
      from seen [OF this] obtain j where "j < i" "?ix ! j = k" "VertexData_of geom0 j msk = Inr v"
        by blast
      then show ?thesis by (intro exI [of _ j]) auto
    qed
    have changed': "int (length data0) \<le> ?ix' ! j
            \<and> (\<exists>j'<j. ?ix' ! j' = ?orig ! j \<and> VertexData_of geom0 j' msk \<noteq> VertexData_of geom0 j msk)"
      if "j < i + 1" "?ix' ! j \<noteq> ?orig ! j" for j
    proof (cases "j = i")
      case True
      then show ?thesis using ge lt conflict by simp
    next
      case False
      with that have ji: "j < i" by simp
      with that have "?ix ! j \<noteq> ?orig ! j" by simp
      from changed [OF ji this] obtain j' where "int (length data0) \<le> ?ix ! j" "j' < j"
        "?ix ! j' = ?orig ! j" "VertexData_of geom0 j' msk \<noteq> VertexData_of geom0 j msk" by blast
      then show ?thesis using ji by (auto intro!: exI [of _ j'])
    qed
    show ?thesis
      unfolding expand_frame_inv_def ix'
      using i1 lt len later first ext' seen'' changed' g
      by (auto simp: nth_list_update)
  qed
qed

lemma expand_frame_inv_final:
  assumes run: "expand data a geom msk = Inr (data', geom')"
  shows "\<exists>m'. expand_frame_inv a msk data geom (length (indices_of a geom)) data' geom' m'"
proof -
  from run have ne: "indices_of a geom \<noteq> []"
    by (auto simp: expand_def split: if_splits)
  from run ne obtain vtx where vtx: "VertexData_of geom 0 msk = Inr vtx"
    and loop: "expand_loop a msk 1 data geom (Map.empty(indices_of a geom ! 0 \<mapsto> vtx)) = Inr (data', geom')"
    by (auto simp: expand_def split: sum.splits)
  have init: "expand_frame_inv a msk data geom 1 data geom (Map.empty(indices_of a geom ! 0 \<mapsto> vtx))"
  proof -
    have "1 \<le> length (indices_of a geom)" using ne by (cases "indices_of a geom") simp_all
    then show ?thesis using vtx by (auto simp: expand_frame_inv_def)
  qed
  have "\<exists>i' m'. expand_frame_inv a msk data geom i' data' geom' m' \<and> length (indices_of a geom') \<le> i'"
  proof (rule expand_loop_invariant [where P = "expand_frame_inv a msk data geom", OF loop init])
    fix i d0 g0 m d g m'
    assume "expand_frame_inv a msk data geom i d0 g0 m" "i < length (indices_of a g0)"
      "expand_body a msk i d0 g0 m = Inr (d, g, m')"
    then show "expand_frame_inv a msk data geom (i + 1) d g m'"
      by (rule expand_frame_inv_step)
  qed
  then obtain i' m' where inv: "expand_frame_inv a msk data geom i' data' geom' m'"
    and le: "length (indices_of a geom') \<le> i'"
    by blast
  from inv le have "i' = length (indices_of a geom)"
    by (simp add: expand_frame_inv_def)
  with inv show ?thesis by blast
qed

text \<open>
  Claim C10.  Whenever \<open>expand\<close> returns: the buffer is the old buffer followed by
  copies of old entries (so every old entry keeps its place and value and the length does
  not decrease); the geometry differs from the old one in the aliased index array at most,
  which keeps its length and its entry 0; and an entry \<open>i\<close> of that array that changed
  now names a slot appended by the call, because an earlier loop position holds the old
  index of \<open>i\<close> with a signature that differs from the signature of \<open>i\<close>.
\<close>

theorem expand_frame:
  assumes "expand data a geom msk = Inr (data', geom')"
  shows "(\<exists>ext. data' = data @ ext \<and> set ext \<subseteq> set data)
       \<and> take (length data) data' = data
       \<and> length data \<le> length data'
       \<and> geom' = set_indices a (indices_of a geom') geom
       \<and> length (indices_of a geom') = length (indices_of a geom)
       \<and> indices_of a geom' ! 0 = indices_of a geom ! 0
       \<and> (\<forall>i<length (indices_of a geom).
             indices_of a geom' ! i \<noteq> indices_of a geom ! i \<longrightarrow>
               int (length data) \<le> indices_of a geom' ! i
               \<and> (\<exists>j<i. indices_of a geom' ! j = indices_of a geom ! i
                        \<and> VertexData_of geom j msk \<noteq> VertexData_of geom i msk))"
proof -
  from expand_frame_inv_final [OF assms] obtain m'
    where inv: "expand_frame_inv a msk data geom (length (indices_of a geom)) data' geom' m'"
    by blast
  from inv obtain ext where ext: "data' = data @ ext" "set ext \<subseteq> set data"
    unfolding expand_frame_inv_def by blast
  from inv have rest: "geom' = set_indices a (indices_of a geom') geom"
    "length (indices_of a geom') = length (indices_of a geom)"
    "indices_of a geom' ! 0 = indices_of a geom ! 0"
    "\<forall>i<length (indices_of a geom).
             indices_of a geom' ! i \<noteq> indices_of a geom ! i \<longrightarrow>
               int (length data) \<le> indices_of a geom' ! i
               \<and> (\<exists>j<i. indices_of a geom' ! j = indices_of a geom ! i
                        \<and> VertexData_of geom j msk \<noteq> VertexData_of geom i msk)"
    unfolding expand_frame_inv_def by blast+
  show ?thesis
    using ext rest by (intro conjI) (blast, simp_all)
qed

text \<open>Witness for C10: the third loop position shares control point 0 with the first
  and has another normal, so the position entry is duplicated.\<close>

theorem expand_frame_witness:
  "expand [10, 20 :: nat] Vertex split_example EXCLUDE_VERTEX
     = Inr ([10, 20, 10], split_example\<lparr>vertex_indices := [0, 1, 2]\<rparr>)"
  using expand_frame [of "[10, 20 :: nat]" Vertex split_example EXCLUDE_VERTEX]
  by (simp add: expand_def expand_loop.simps expand_body_def VertexData_of_def signature_field_def
      VertexData_differs_def split_example_def empty_geometry_def
      EXCLUDE_VERTEX_def EXCLUDE_NORMAL_def EXCLUDE_TANGENT_def EXCLUDE_COLOR_def EXCLUDE_UV_def)

lemma expand_body_cases:
  assumes inv: "expand_frame_inv a msk data0 geom0 i data geom m"
      and lt: "i < length (indices_of a geom)"
      and body: "expand_body a msk i data geom m = Inr (d, g, m')"
  obtains
    (fresh) vtx where "VertexData_of geom0 i msk = Inr vtx"
      "m (indices_of a geom ! i) = None" "d = data" "g = geom"
      "m' = m(indices_of a geom ! i \<mapsto> vtx)"
  | (same) vtx where "VertexData_of geom0 i msk = Inr vtx"
      "m (indices_of a geom ! i) = Some vtx" "d = data" "g = geom" "m' = m"
  | (split) vtx seen' where "VertexData_of geom0 i msk = Inr vtx"
      "m (indices_of a geom ! i) = Some seen'" "seen' \<noteq> vtx"
      "0 \<le> indices_of a geom ! i" "nat (indices_of a geom ! i) < length data"
      "d = data @ [data ! nat (indices_of a geom ! i)]"
      "g = set_indices a ((indices_of a geom)[i := int (length data)]) geom"
      "m' = m(int (length data) \<mapsto> vtx)"
proof -
  let ?ix = "indices_of a geom" and ?orig = "indices_of a geom0"
  from inv have geom: "geom = set_indices a ?ix geom0"
    and len: "length ?ix = length ?orig"
    and later: "\<And>j. i \<le> j \<Longrightarrow> ?ix ! j = ?orig ! j"
    unfolding expand_frame_inv_def by blast+
  have sig: "VertexData_of geom i msk = VertexData_of geom0 i msk"
    by (subst geom) (rule VertexData_of_set_indices [OF len later [OF le_refl]])
  from body obtain vtx where vtx: "VertexData_of geom0 i msk = Inr vtx"
    by (auto simp: expand_body_def Let_def sig split: sum.splits)
  consider
      "m (?ix ! i) = None" "d = data" "g = geom" "m' = m(?ix ! i \<mapsto> vtx)"
    | "m (?ix ! i) = Some vtx" "d = data" "g = geom" "m' = m"
    | seen' where "m (?ix ! i) = Some seen'" "seen' \<noteq> vtx"
        "0 \<le> ?ix ! i" "nat (?ix ! i) < length data"
        "d = data @ [data ! nat (?ix ! i)]"
        "g = set_indices a (?ix[i := int (length data)]) geom"
        "m' = m(int (length data) \<mapsto> vtx)"
    using body
    by (auto simp: expand_body_def Let_def sig vtx VertexData_differs_iff
             split: option.splits if_splits)
  then show thesis
    using vtx fresh same split by cases blast+
qed

lemma expand_range_inv_step:
  assumes inv: "expand_range_inv a msk data0 geom0 i data geom m"
      and lt: "i < length (indices_of a geom)"
      and body: "expand_body a msk i data geom m = Inr (d, g, m')"
  shows "expand_range_inv a msk data0 geom0 (i + 1) d g m'"
proof -
  let ?ix = "indices_of a geom" and ?orig = "indices_of a geom0"
  from inv have frame: "expand_frame_inv a msk data0 geom0 i data geom m"
    and range0: "\<And>j. j < length ?orig \<Longrightarrow> 0 \<le> ?orig ! j \<and> ?orig ! j < int (length data0)"
    and processed: "\<And>j. j < i \<Longrightarrow> 0 \<le> ?ix ! j \<and> ?ix ! j < int (length data)
               \<and> (\<exists>v. m (?ix ! j) = Some v \<and> VertexData_of geom0 j msk = Inr v)"
    unfolding expand_range_inv_def by blast+
  have frame': "expand_frame_inv a msk data0 geom0 (i + 1) d g m'"
    by (rule expand_frame_inv_step [OF frame lt body])
  from frame have len: "length ?ix = length ?orig"
    and here: "?ix ! i = ?orig ! i"
    and ext: "\<exists>ext. data = data0 @ ext \<and> set ext \<subseteq> set data0"
    unfolding expand_frame_inv_def by auto
  have le: "length data0 \<le> length data" using ext by auto
  have now: "0 \<le> ?ix ! i" "?ix ! i < int (length data)"
    using range0 [of i] lt len here le by auto
  have "0 \<le> indices_of a g ! j \<and> indices_of a g ! j < int (length d)
          \<and> (\<exists>v. m' (indices_of a g ! j) = Some v \<and> VertexData_of geom0 j msk = Inr v)"
    if j: "j < i + 1" for j
    using frame lt body
  proof (cases rule: expand_body_cases)
    case (fresh vtx)
    show ?thesis
    proof (cases "j = i")
      case True
      then show ?thesis using fresh now by simp
    next
      case False
      with j have ji: "j < i" by simp
      from processed [OF ji] obtain v where v: "0 \<le> ?ix ! j" "?ix ! j < int (length data)"
        "m (?ix ! j) = Some v" "VertexData_of geom0 j msk = Inr v" by blast
      with fresh have "?ix ! j \<noteq> ?ix ! i" by auto
      then show ?thesis using fresh v by simp
    qed
  next
    case (same vtx)
    show ?thesis
    proof (cases "j = i")
      case True
      then show ?thesis using same now by simp
    next
      case False
      with j have ji: "j < i" by simp
      from processed [OF ji] show ?thesis using same by simp
    qed
  next
    case (split vtx seen')
    have ix': "indices_of a g = ?ix[i := int (length data)]" using split by simp
    show ?thesis
    proof (cases "j = i")
      case True
      then show ?thesis using split lt by (simp add: ix')
    next
      case False
      with j have ji: "j < i" by simp
      from processed [OF ji] obtain v where v: "0 \<le> ?ix ! j" "?ix ! j < int (length data)"
        "m (?ix ! j) = Some v" "VertexData_of geom0 j msk = Inr v" by blast
      then show ?thesis using split False by (simp add: ix')
    qed
  qed
  then show ?thesis
    using frame' range0 unfolding expand_range_inv_def by blast
qed

lemma expand_range_inv_final:
  assumes run: "expand data a geom msk = Inr (data', geom')"
      and range: "\<forall>x\<in>set (indices_of a geom). 0 \<le> x \<and> x < int (length data)"
  shows "\<exists>m'. expand_range_inv a msk data geom (length (indices_of a geom)) data' geom' m'"
proof -
  from run have ne: "indices_of a geom \<noteq> []"
    by (auto simp: expand_def split: if_splits)
  then have pos: "1 \<le> length (indices_of a geom)" by (cases "indices_of a geom") simp_all
  from run ne obtain vtx where vtx: "VertexData_of geom 0 msk = Inr vtx"
    and loop: "expand_loop a msk 1 data geom (Map.empty(indices_of a geom ! 0 \<mapsto> vtx)) = Inr (data', geom')"
    by (auto simp: expand_def split: sum.splits)
  have r0: "\<forall>j<length (indices_of a geom). 0 \<le> indices_of a geom ! j \<and> indices_of a geom ! j < int (length data)"
    using range by simp
  have z: "0 \<le> indices_of a geom ! 0 \<and> indices_of a geom ! 0 < int (length data)"
    using r0 pos by (metis Suc_le_lessD One_nat_def)
  have init: "expand_range_inv a msk data geom 1 data geom (Map.empty(indices_of a geom ! 0 \<mapsto> vtx))"
    using pos vtx r0 z by (auto simp: expand_range_inv_def expand_frame_inv_def)
  have "\<exists>i' m'. expand_range_inv a msk data geom i' data' geom' m' \<and> length (indices_of a geom') \<le> i'"
  proof (rule expand_loop_invariant [where P = "expand_range_inv a msk data geom", OF loop init])
    fix i d0 g0 m d g m'
    assume "expand_range_inv a msk data geom i d0 g0 m" "i < length (indices_of a g0)"
      "expand_body a msk i d0 g0 m = Inr (d, g, m')"
    then show "expand_range_inv a msk data geom (i + 1) d g m'"
      by (rule expand_range_inv_step)
  qed
  then obtain i' m' where inv: "expand_range_inv a msk data geom i' data' geom' m'"
    and le: "length (indices_of a geom') \<le> i'"
    by blast
  from inv le have "i' = length (indices_of a geom)"
    by (simp add: expand_range_inv_def expand_frame_inv_def)
  with inv show ?thesis by blast
qed

lemma VertexData_of_Inr:
  "VertexData_of g i msk = Inr v \<longleftrightarrow>
     signature_field (vertex_indices g) i msk EXCLUDE_VERTEX = Inr (pos v)
     \<and> signature_field (normal_indices g) i msk EXCLUDE_NORMAL = Inr (nrm v)
     \<and> signature_field (tangent_indices g) i msk EXCLUDE_TANGENT = Inr (tan v)
     \<and> signature_field (color_indices g) i msk EXCLUDE_COLOR = Inr (clr v)
     \<and> signature_field (uv_indices g) i msk EXCLUDE_UV = Inr (uv v)"
  by (cases v) (auto simp: VertexData_of_def split: sum.splits)

lemma signature_field_same_value:
  "i < length xs \<Longrightarrow> j < length xs \<Longrightarrow> xs ! i = xs ! j \<Longrightarrow>
   signature_field xs i msk e = signature_field xs j msk e"
  by (simp add: signature_field_def)

lemma VertexData_of_final_agree:
  assumes "VertexData_of g i msk = Inr v" and "VertexData_of g j msk = Inr v"
      and "i < length xs" and "j < length xs" and "xs ! i = xs ! j"
  shows "VertexData_of (set_indices a xs g) i msk = VertexData_of (set_indices a xs g) j msk"
proof -
  have f: "signature_field xs i msk e = signature_field xs j msk e" for e
    using assms(3-5) by (rule signature_field_same_value)
  show ?thesis
    using assms(1,2) unfolding VertexData_of_Inr
    by (cases a) (simp_all add: VertexData_of_def f cong: sum.case_cong)
qed

text \<open>
  Claim C2 as amended.  \<open>expand\<close> does not check the indices it is given.  When every
  index of the call is a valid index into the data buffer, then upon return every loop
  position holds a valid index into the grown buffer, and two loop positions that hold
  the same index have the same signature (computed from the geometry of the call, and
  also from the returned geometry).
\<close>

theorem expand_consistent:
  assumes run: "expand data a geom msk = Inr (data', geom')"
      and range: "\<forall>x\<in>set (indices_of a geom). 0 \<le> x \<and> x < int (length data)"
  shows "(\<forall>i<length (indices_of a geom').
            0 \<le> indices_of a geom' ! i \<and> indices_of a geom' ! i < int (length data'))
       \<and> (\<forall>i<length (indices_of a geom'). \<forall>j<length (indices_of a geom').
            indices_of a geom' ! i = indices_of a geom' ! j \<longrightarrow>
              VertexData_of geom i msk = VertexData_of geom j msk
              \<and> VertexData_of geom' i msk = VertexData_of geom' j msk)"
proof -
  let ?ix' = "indices_of a geom'"
  from expand_range_inv_final [OF run range] obtain m'
    where inv: "expand_range_inv a msk data geom (length (indices_of a geom)) data' geom' m'"
    by blast
  from inv have len: "length ?ix' = length (indices_of a geom)"
    and geom': "geom' = set_indices a ?ix' geom"
    unfolding expand_range_inv_def expand_frame_inv_def by auto
  from inv have processed: "\<And>j. j < length ?ix' \<Longrightarrow>
      0 \<le> ?ix' ! j \<and> ?ix' ! j < int (length data')
      \<and> (\<exists>v. m' (?ix' ! j) = Some v \<and> VertexData_of geom j msk = Inr v)"
    unfolding expand_range_inv_def len by blast
  have "VertexData_of geom i msk = VertexData_of geom j msk
        \<and> VertexData_of geom' i msk = VertexData_of geom' j msk"
    if i: "i < length ?ix'" and j: "j < length ?ix'" and eq: "?ix' ! i = ?ix' ! j" for i j
  proof -
    from processed [OF i] obtain v where v: "m' (?ix' ! i) = Some v" "VertexData_of geom i msk = Inr v"
      by blast
    from processed [OF j] obtain w where w: "m' (?ix' ! j) = Some w" "VertexData_of geom j msk = Inr w"
      by blast
    from v w eq have vw: "v = w" by simp
    have "VertexData_of (set_indices a ?ix' geom) i msk = VertexData_of (set_indices a ?ix' geom) j msk"
      using v(2) w(2) i j eq unfolding vw by (rule VertexData_of_final_agree)
    then show ?thesis using v w vw geom' by simp
  qed
  then show ?thesis using processed by blast
qed

lemmas expand_eval = expand_def expand_loop.simps expand_body_def VertexData_of_def signature_field_def
      VertexData_differs_def empty_geometry_def
      EXCLUDE_VERTEX_def EXCLUDE_NORMAL_def EXCLUDE_TANGENT_def EXCLUDE_COLOR_def EXCLUDE_UV_def

text \<open>
  Claim C2 fails as stated: with a buffer of two normals and the normal indices
  \<open>[2, 0, 0, 7]\<close>, the split at position 2 appends slot 2 and overwrites the signature
  recorded for the first position under the key 2.  On return positions 0 and 2 share
  index 2 with different signatures, and position 3 holds index 7 in a buffer of three.
\<close>

theorem expand_overwrites_signature:
  "expand [10, 20 :: nat] Normal overlap_example EXCLUDE_NORMAL
     = Inr ([10, 20, 10], overlap_example\<lparr>normal_indices := [2, 0, 2, 7]\<rparr>)
   \<and> (case expand [10, 20 :: nat] Normal overlap_example EXCLUDE_NORMAL of
        Inl e \<Rightarrow> False
      | Inr (data', geom') \<Rightarrow>
          indices_of Normal geom' ! 0 = indices_of Normal geom' ! 2
          \<and> VertexData_of geom' 0 EXCLUDE_NORMAL \<noteq> VertexData_of geom' 2 EXCLUDE_NORMAL
          \<and> \<not> indices_of Normal geom' ! 3 < int (length data'))"
  by (simp add: expand_eval overlap_example_def)

text \<open>Witness for C2: the normals of \<open>split_example\<close>; positions 0 and 1 share normal 0
  at different control points.\<close>

theorem expand_consistent_witness:
  "expand [30, 40 :: nat] Normal split_example EXCLUDE_NORMAL
     = Inr ([30, 40, 30], split_example\<lparr>normal_indices := [0, 2, 1]\<rparr>)
   \<and> list_all (\<lambda>x. 0 \<le> x \<and> x < 3) (normal_indices (split_example\<lparr>normal_indices := [0, 2, 1]\<rparr>))"
  using expand_consistent [of "[30, 40 :: nat]" Normal split_example EXCLUDE_NORMAL]
  by (simp add: expand_eval split_example_def)

lemma expand_body_returns:
  assumes inv: "expand_range_inv a msk data0 geom0 i data geom m"
      and lt: "i < length (indices_of a geom)"
      and sigs: "\<forall>j<length (indices_of a geom0). \<exists>v. VertexData_of geom0 j msk = Inr v"
  shows "\<exists>r. expand_body a msk i data geom m = Inr r"
proof -
  let ?ix = "indices_of a geom" and ?orig = "indices_of a geom0"
  from inv have geom: "geom = set_indices a ?ix geom0"
    and len: "length ?ix = length ?orig"
    and later: "\<And>j. i \<le> j \<Longrightarrow> ?ix ! j = ?orig ! j"
    and ext: "\<exists>ext. data = data0 @ ext \<and> set ext \<subseteq> set data0"
    and range0: "\<And>j. j < length ?orig \<Longrightarrow> 0 \<le> ?orig ! j \<and> ?orig ! j < int (length data0)"
    unfolding expand_range_inv_def expand_frame_inv_def by blast+
  have sig: "VertexData_of geom i msk = VertexData_of geom0 i msk"
    by (subst geom) (rule VertexData_of_set_indices [OF len later [OF le_refl]])
  from sigs lt len obtain vtx where vtx: "VertexData_of geom0 i msk = Inr vtx" by auto
  have here: "?ix ! i = ?orig ! i" by (rule later) simp
  have le: "length data0 \<le> length data" using ext by auto
  have now: "0 \<le> ?ix ! i" "?ix ! i < int (length data)"
    using range0 [of i] lt len here le by auto
  then have "\<not> (?ix ! i < 0 \<or> length data \<le> nat (?ix ! i))" by auto
  then show ?thesis
    by (simp add: expand_body_def Let_def sig vtx split: option.splits)
qed

lemma expand_loop_returns:
  assumes "expand_range_inv a msk data0 geom0 i data geom m"
      and "\<forall>j<length (indices_of a geom0). \<exists>v. VertexData_of geom0 j msk = Inr v"
  shows "\<exists>r. expand_loop a msk i data geom m = Inr r"
  using assms
proof (induction a msk i data geom m rule: expand_loop.induct)
  case (1 a msk i data geom m)
  show ?case
  proof (cases "i < length (indices_of a geom)")
    case True
    from expand_body_returns [OF "1.prems"(1) True "1.prems"(2)]
    obtain d g m' where body: "expand_body a msk i data geom m = Inr (d, g, m')"
      by (metis prod_cases3)
    have inv': "expand_range_inv a msk data0 geom0 (i + 1) d g m'"
      by (rule expand_range_inv_step [OF "1.prems"(1) True body])
    have "\<exists>r. expand_loop a msk (i + 1) d g m' = Inr r"
      by (rule "1.IH" [OF True body refl refl inv' "1.prems"(2)])
    then show ?thesis
      using True body by (subst expand_loop.simps) simp
  next
    case False
    then show ?thesis by (subst expand_loop.simps) simp
  qed
qed

text \<open>
  \<open>expand\<close> returns on every call with a non-empty index array of valid indices whose
  loop positions all have a signature (every other index array is empty, excluded by the
  mask, or as long as the expanded one).
\<close>

lemma expand_returns:
  assumes ne: "indices_of a geom \<noteq> []"
      and range: "\<forall>x\<in>set (indices_of a geom). 0 \<le> x \<and> x < int (length data)"
      and sigs: "\<forall>j<length (indices_of a geom). \<exists>v. VertexData_of geom j msk = Inr v"
  shows "\<exists>data' geom'. expand data a geom msk = Inr (data', geom')"
proof -
  from ne have pos: "1 \<le> length (indices_of a geom)" by (cases "indices_of a geom") simp_all
  from sigs pos obtain vtx where vtx: "VertexData_of geom 0 msk = Inr vtx"
    by (metis Suc_le_lessD One_nat_def)
  have r0: "\<forall>j<length (indices_of a geom). 0 \<le> indices_of a geom ! j \<and> indices_of a geom ! j < int (length data)"
    using range by simp
  have z: "0 \<le> indices_of a geom ! 0 \<and> indices_of a geom ! 0 < int (length data)"
    using r0 pos by (metis Suc_le_lessD One_nat_def)
  have init: "expand_range_inv a msk data geom 1 data geom (Map.empty(indices_of a geom ! 0 \<mapsto> vtx))"
    using pos vtx r0 z by (auto simp: expand_range_inv_def expand_frame_inv_def)
  from expand_loop_returns [OF init sigs] obtain r
    where "expand_loop a msk 1 data geom (Map.empty(indices_of a geom ! 0 \<mapsto> vtx)) = Inr r"
    by blast
  then show ?thesis
    using ne vtx by (cases r) (simp add: expand_def)
qed

section \<open>Properties of the geometry assembly\<close>

lemma valid_indices_mono:
  "valid_indices ix data \<Longrightarrow> length data \<le> length data' \<Longrightarrow> valid_indices ix data'"
  by (fastforce simp: valid_indices_def)













lemmas decode_eval = le32_def raw_array_def string_property_def leaf_def no_externals_def quad_mesh_def
  bytes_of_u32_def bytes_of_string_def read_u32_def parseBinaryArray_def parseBinaryArrayRaw_def
  raw_elem_size_def array_elem_size_def resize_def parseDoubleVecData_def findChild_def DataView_eq_def
  ints_of_bytes_def bytes_of_ints_def chunks.simps

lemmas layers_eval = parseLayers_def parseVerticesAndPolygons_def parseMaterialLayer_def parseLayerUV_def
  parseLayerTangents_def parseLayerColor_def parseLayerNormal_def parseLayer_def parseVertexData_def
  parseMappingInformation_def parseReferenceInformation_def generateIndices_def
  triangulate_def triangulate_loop.simps triangulate_body_def getIdx_def empty_geometry_def
  fill_identity.simps

lemmas assembly_eval = parseGeometryForRendering_def expandForRendering_def expandVertices_def
  expandNormals_def expandTangents_def expandColors_def expandUVs_def remapForRendering_def
  remap_loop.simps remap_triangles.simps






text \<open>
  The assembly does not check the polygon stream against the positions: a corner that
  names a control point that does not exist stays in \<^verbatim>\<open>vertex_indices\<close> and
  \<^verbatim>\<open>triangles\<close>.
\<close>

lemma parseGeometryForRendering_dangling_index:
  "parseGeometryForRendering no_externals dangling_mesh
     = Inr (empty_geometry
              \<lparr>vertices := [replicate 24 0, replicate 24 0, replicate 24 0, replicate 24 0],
               vertex_indices := [0, 1, 7], triangles := [0, 1, 7]\<rparr>)"
  by (simp add: decode_eval layers_eval dangling_mesh_def assembly_eval expand_eval)

text \<open>
  \<^verbatim>\<open>remapForRendering\<close> writes \<^verbatim>\<open>(*out)[vertex_indices[i]]\<close> without resizing
  \<^verbatim>\<open>out\<close>: with five control points and three normals the write for control point 3
  lies past the normals.
\<close>

lemma parseGeometryForRendering_remap_overrun:
  "parseGeometryForRendering no_externals sparse_mesh = Inl (UndefinedBehaviour ''(*out)[idx]'')"
  by (simp add: decode_eval layers_eval sparse_mesh_def assembly_eval expand_eval)

end
